theory Spec2Isabelle
  imports Complex_Main
begin

section \<open>Python values, coercions and errors\<close>

text \<open>
  The field extractor and the validator pass dynamically typed payloads around
  (\<^verbatim>\<open>Dict[str, Any]\<close>): a field is sometimes a record, sometimes a bare value, and the
  code inspects it with \<^verbatim>\<open>isinstance\<close>, truthiness, \<^verbatim>\<open>int()\<close> and \<^verbatim>\<open>float()\<close>.
  Such a payload is a \<open>py_value\<close>. A Python float is a real number here: rounding,
  infinities and NaN are outside the model. A dictionary is an association list, read with
  \<^verbatim>\<open>.get(key, default)\<close>. A sequence is a Python list.
\<close>

datatype py_error = ValueError | TypeError | AttributeError

datatype py_value =
    PNone
  | PBool bool
  | PInt int
  | PFloat real
  | PStr string
  | PList "py_value list"
  | PDict "(string \<times> py_value) list"

type_synonym dict = "(string \<times> py_value) list"

text \<open>\<^verbatim>\<open>d.get(k, default)\<close>; \<^verbatim>\<open>d.get(k)\<close> is \<open>dict_get d k PNone\<close>.\<close>

definition dict_get :: "dict \<Rightarrow> string \<Rightarrow> py_value \<Rightarrow> py_value" where
  "dict_get d k dflt = (case map_of d k of Some v \<Rightarrow> v | None \<Rightarrow> dflt)"

text \<open>Truthiness, as \<^verbatim>\<open>if x:\<close> and \<^verbatim>\<open>x and y\<close> test it.\<close>

fun truthy :: "py_value \<Rightarrow> bool" where
  "truthy PNone = False"
| "truthy (PBool b) = b"
| "truthy (PInt i) = (i \<noteq> 0)"
| "truthy (PFloat r) = (r \<noteq> 0)"
| "truthy (PStr s) = (s \<noteq> [])"
| "truthy (PList xs) = (xs \<noteq> [])"
| "truthy (PDict d) = (d \<noteq> [])"

text \<open>\<^verbatim>\<open>isinstance(v, (int, float))\<close>; \<^verbatim>\<open>bool\<close> is a subclass of \<^verbatim>\<open>int\<close>.\<close>

fun is_number :: "py_value \<Rightarrow> bool" where
  "is_number (PBool b) = True"
| "is_number (PInt i) = True"
| "is_number (PFloat r) = True"
| "is_number v = False"

text \<open>The numeric reading of a number, for comparisons between numbers.\<close>

fun num_of :: "py_value \<Rightarrow> real" where
  "num_of (PBool b) = (if b then 1 else 0)"
| "num_of (PInt i) = real_of_int i"
| "num_of (PFloat r) = r"
| "num_of v = 0"

text \<open>\<^verbatim>\<open>int(x)\<close> on a float truncates toward zero.\<close>

definition trunc :: "real \<Rightarrow> int" where
  "trunc r = (if 0 \<le> r then \<lfloor>r\<rfloor> else \<lceil>r\<rceil>)"

section \<open>Patterns, explanations and library functions\<close>

datatype hp_pattern =
    Digits_HP          \<comment> \<open>\<^verbatim>\<open>(\d+)\s*HP\<close>\<close>
  | Digits_hp          \<comment> \<open>\<^verbatim>\<open>(\d+)\s*hp\<close>\<close>
  | Digits_horse_power \<comment> \<open>\<^verbatim>\<open>(\d+)\s*horse\s*power\<close>\<close>
  | HP_digits          \<comment> \<open>\<^verbatim>\<open>HP\s*[:\-]?\s*(\d+)\<close>\<close>
  | Power_digits       \<comment> \<open>\<^verbatim>\<open>Power\s*[:\-]?\s*(\d+)\<close>\<close>

datatype cost_pattern =
    Label_amount       \<comment> \<open>total, cost, price, amount or value, an optional currency mark, the amount\<close>
  | Currency_amount    \<comment> \<open>a currency mark, the amount\<close>
  | Amount_unit        \<comment> \<open>the amount, then rupees or lakh(s)\<close>

text \<open>
  Each extractor returns \<^verbatim>\<open>{'value': ..., 'confidence': ..., 'explanation': ...}\<close>. The
  explanation is an f-string; it is kept as the template with the values it interpolates.
\<close>

datatype expl =
    Fuzzy_matched py_value py_value real \<comment> \<open>Fuzzy matched 'candidate' to 'match' with score% similarity\<close>
  | No_dealer_match real                \<comment> \<open>No dealer match found (best: score%)\<close>
  | Exact_match string                  \<comment> \<open>Exact match found: candidate\<close>
  | Matched string string real          \<comment> \<open>Matched 'candidate' to 'match' (score%)\<close>
  | No_model_match                      \<comment> \<open>No model match found in asset master\<close>
  | HP_from_VLM int                     \<comment> \<open>Extracted n HP from VLM\<close>
  | HP_using_pattern int hp_pattern     \<comment> \<open>Extracted n HP using pattern 'p'\<close>
  | No_HP_found                         \<comment> \<open>No HP value found\<close>
  | Cost_from_VLM py_value              \<comment> \<open>Extracted cost c from VLM\<close>
  | Cost_using_pattern real cost_pattern \<comment> \<open>Extracted cost c using pattern 'p'\<close>
  | No_valid_cost                       \<comment> \<open>No valid cost found\<close>

text \<open>
  The library functions the code calls are parameters of the model: the similarity scorer
  behind \<^verbatim>\<open>process.extractOne(..., scorer=fuzz.ratio)\<close>, \<^verbatim>\<open>re.findall\<close> with
  \<^verbatim>\<open>re.IGNORECASE\<close> on each of the fixed patterns, the parsers behind \<^verbatim>\<open>int(s)\<close> and
  \<^verbatim>\<open>float(s)\<close> on a string (\<open>None\<close> stands for \<^verbatim>\<open>ValueError\<close>), and the two
  line-scanning helpers that propose name candidates from the transcript
  (\<^verbatim>\<open>_extract_dealer_candidates\<close>, \<^verbatim>\<open>_extract_model_candidates\<close>), and the text an
  f-string formats to. Every theorem below holds for all of them.
\<close>

record externals =
  fuzz_ratio :: "string \<Rightarrow> string \<Rightarrow> real"
  findall_hp :: "hp_pattern \<Rightarrow> string \<Rightarrow> string list"
  findall_cost :: "cost_pattern \<Rightarrow> string \<Rightarrow> string list"
  int_of_str :: "string \<Rightarrow> int option"
  float_of_str :: "string \<Rightarrow> real option"
  dealer_candidates :: "string \<Rightarrow> string list"
  model_candidates :: "string \<Rightarrow> string list"
  render :: "expl \<Rightarrow> string"

text \<open>\<^verbatim>\<open>float(v)\<close> and \<^verbatim>\<open>int(v)\<close> on any value.\<close>

fun py_float :: "externals \<Rightarrow> py_value \<Rightarrow> py_error + real" where
  "py_float ext (PBool b) = Inr (if b then 1 else 0)"
| "py_float ext (PInt i) = Inr (real_of_int i)"
| "py_float ext (PFloat r) = Inr r"
| "py_float ext (PStr s) = (case float_of_str ext s of None \<Rightarrow> Inl ValueError | Some r \<Rightarrow> Inr r)"
| "py_float ext v = Inl TypeError"

fun py_int :: "externals \<Rightarrow> py_value \<Rightarrow> py_error + int" where
  "py_int ext (PBool b) = Inr (if b then 1 else 0)"
| "py_int ext (PInt i) = Inr i"
| "py_int ext (PFloat r) = Inr (trunc r)"
| "py_int ext (PStr s) = (case int_of_str ext s of None \<Rightarrow> Inl ValueError | Some i \<Rightarrow> Inr i)"
| "py_int ext v = Inl TypeError"

text \<open>\<^verbatim>\<open>v >= r\<close> for a float \<open>r\<close>: numbers compare, anything else raises \<^verbatim>\<open>TypeError\<close>.\<close>

definition py_ge :: "py_value \<Rightarrow> real \<Rightarrow> py_error + bool" where
  "py_ge v r = (if is_number v then Inr (r \<le> num_of v) else Inl TypeError)"

section \<open>Field results\<close>

record field_result =
  fvalue :: py_value
  confidence :: real
  explanation :: expl

text \<open>The two master lists a \<^verbatim>\<open>FieldExtractor\<close> holds, and the secondary (VLM) result.\<close>

record field_extractor =
  dealer_master :: "string list"
  asset_master :: "string list"

record vlm_result =
  vlm_dealer_name :: "string option"
  vlm_model_name :: "string option"
  vlm_horse_power :: py_value
  vlm_asset_cost :: py_value

section \<open>Fuzzy matching against a master list\<close>

text \<open>
  \<^verbatim>\<open>process.extractOne(query, choices, scorer=fuzz.ratio)\<close>: the choice with the highest
  score, the earliest one among equals, with its score; \<^verbatim>\<open>None\<close> when there is no choice.
\<close>

fun extractOne_from :: "(string \<Rightarrow> real) \<Rightarrow> string \<times> real \<Rightarrow> string list \<Rightarrow> string \<times> real" where
  "extractOne_from sc best [] = best"
| "extractOne_from sc best (c # cs) =
     extractOne_from sc (if snd best < sc c then (c, sc c) else best) cs"

fun extractOne :: "externals \<Rightarrow> string \<Rightarrow> string list \<Rightarrow> (string \<times> real) option" where
  "extractOne ext query [] = None"
| "extractOne ext query (c # cs) =
     Some (extractOne_from (fuzz_ratio ext query) (c, fuzz_ratio ext query c) cs)"

section \<open>Dealer name\<close>

text \<open>The three loop variables of \<^verbatim>\<open>extract_dealer_name\<close>.\<close>

record dealer_best =
  best_match :: "string option"
  best_score :: real
  best_candidate :: "string option"

definition dealer_init :: dealer_best where
  "dealer_init = \<lparr>best_match = None, best_score = 0, best_candidate = None\<rparr>"

fun dealer_loop :: "externals \<Rightarrow> string list \<Rightarrow> dealer_best \<Rightarrow> string list \<Rightarrow> dealer_best" where
  "dealer_loop ext master st [] = st"
| "dealer_loop ext master st (candidate # rest) =
     (if candidate = [] then dealer_loop ext master st rest
      else case extractOne ext candidate master of
          None \<Rightarrow> dealer_loop ext master st rest
        | Some (m, s) \<Rightarrow>
            if best_score st < s
            then dealer_loop ext master
                   \<lparr>best_match = Some m, best_score = s, best_candidate = Some candidate\<rparr> rest
            else dealer_loop ext master st rest)"

text \<open>The candidate list: the secondary source's name first when it is truthy, then the
  candidates found in the transcript.\<close>

definition name_candidates :: "string option \<Rightarrow> string list \<Rightarrow> string list" where
  "name_candidates vlm_name ocr_candidates =
     (case vlm_name of
        None \<Rightarrow> []
      | Some n \<Rightarrow> if n \<noteq> [] then [n] else []) @ ocr_candidates"

definition str_or_none :: "string option \<Rightarrow> py_value" where
  "str_or_none s = (case s of None \<Rightarrow> PNone | Some t \<Rightarrow> PStr t)"

definition extract_dealer_name ::
  "field_extractor \<Rightarrow> externals \<Rightarrow> string \<Rightarrow> vlm_result \<Rightarrow> field_result" where
  "extract_dealer_name fe ext ocr_text vlm =
     (let candidates = name_candidates (vlm_dealer_name vlm) (dealer_candidates ext ocr_text);
          st = dealer_loop ext (dealer_master fe) dealer_init candidates
      in if 90 \<le> best_score st
         then \<lparr>fvalue = str_or_none (best_match st),
               confidence = best_score st / 100,
               explanation = Fuzzy_matched (str_or_none (best_candidate st))
                               (str_or_none (best_match st)) (best_score st)\<rparr>
         else \<lparr>fvalue = PNone, confidence = 0,
               explanation = No_dealer_match (best_score st)\<rparr>)"

section \<open>Model name\<close>

text \<open>The loop of \<^verbatim>\<open>extract_model_name\<close>: each \<^verbatim>\<open>return\<close> leaves it, the fall-through
  is the result after the last candidate.\<close>

fun model_loop :: "externals \<Rightarrow> string list \<Rightarrow> string list \<Rightarrow> field_result" where
  "model_loop ext master [] =
     \<lparr>fvalue = PNone, confidence = 0, explanation = No_model_match\<rparr>"
| "model_loop ext master (candidate # rest) =
     (if candidate = [] then model_loop ext master rest
      else if candidate \<in> set master
      then \<lparr>fvalue = PStr candidate, confidence = 1, explanation = Exact_match candidate\<rparr>
      else case extractOne ext candidate master of
          None \<Rightarrow> model_loop ext master rest
        | Some (m, s) \<Rightarrow>
            if 95 \<le> s
            then \<lparr>fvalue = PStr m, confidence = s / 100, explanation = Matched candidate m s\<rparr>
            else model_loop ext master rest)"

definition extract_model_name ::
  "field_extractor \<Rightarrow> externals \<Rightarrow> string \<Rightarrow> vlm_result \<Rightarrow> field_result" where
  "extract_model_name fe ext ocr_text vlm =
     model_loop ext (asset_master fe)
       (name_candidates (vlm_model_name vlm) (model_candidates ext ocr_text))"

section \<open>Horse power\<close>

definition hp_patterns :: "hp_pattern list" where
  "hp_patterns = [Digits_HP, Digits_hp, Digits_horse_power, HP_digits, Power_digits]"

text \<open>The loop over the patterns: \<^verbatim>\<open>int(matches[0])\<close> is checked against 20 to 150 and
  returned when it fits; otherwise the loop goes on with the next pattern.\<close>

fun hp_loop :: "externals \<Rightarrow> string \<Rightarrow> hp_pattern list \<Rightarrow> py_error + field_result" where
  "hp_loop ext ocr_text [] =
     Inr \<lparr>fvalue = PNone, confidence = 0, explanation = No_HP_found\<rparr>"
| "hp_loop ext ocr_text (pattern # rest) =
     (case findall_hp ext pattern ocr_text of
        [] \<Rightarrow> hp_loop ext ocr_text rest
      | m # ms \<Rightarrow>
          (case int_of_str ext m of
             None \<Rightarrow> Inl ValueError
           | Some hp_value \<Rightarrow>
               if 20 \<le> hp_value \<and> hp_value \<le> 150
               then Inr \<lparr>fvalue = PInt hp_value, confidence = 85 / 100,
                         explanation = HP_using_pattern hp_value pattern\<rparr>
               else hp_loop ext ocr_text rest))"

definition extract_horse_power ::
  "externals \<Rightarrow> string \<Rightarrow> vlm_result \<Rightarrow> py_error + field_result" where
  "extract_horse_power ext ocr_text vlm =
     (let vlm_hp = vlm_horse_power vlm
      in if vlm_hp \<noteq> PNone
         then (case py_int ext vlm_hp of
                 Inl e \<Rightarrow> Inl e
               | Inr n \<Rightarrow> Inr \<lparr>fvalue = PInt n, confidence = 9 / 10,
                               explanation = HP_from_VLM n\<rparr>)
         else hp_loop ext ocr_text hp_patterns)"

section \<open>Asset cost\<close>

definition cost_patterns :: "cost_pattern list" where
  "cost_patterns = [Label_amount, Currency_amount, Amount_unit]"

text \<open>\<^verbatim>\<open>match.replace(',', '').strip()\<close>, on the white space of ASCII.\<close>

definition is_space :: "char \<Rightarrow> bool" where
  "is_space c = (c \<in> set [CHR 0x09, CHR 0x0A, CHR 0x0B, CHR 0x0C, CHR 0x0D,
                            CHR 0x1C, CHR 0x1D, CHR 0x1E, CHR 0x1F, CHR 0x20])"

definition strip :: "string \<Rightarrow> string" where
  "strip s = rev (dropWhile is_space (rev (dropWhile is_space s)))"

definition remove_commas :: "string \<Rightarrow> string" where
  "remove_commas s = filter (\<lambda>c. c \<noteq> CHR '','') s"

text \<open>The inner loop over the matches of one pattern, appending to \<^verbatim>\<open>candidates\<close>; a
  \<^verbatim>\<open>ValueError\<close> of \<^verbatim>\<open>float\<close> skips the match.\<close>

fun cost_matches :: "externals \<Rightarrow> cost_pattern \<Rightarrow> (real \<times> cost_pattern) list \<Rightarrow> string list
    \<Rightarrow> (real \<times> cost_pattern) list" where
  "cost_matches ext pattern candidates [] = candidates"
| "cost_matches ext pattern candidates (m # ms) =
     (let value_str = strip (remove_commas m)
      in case float_of_str ext value_str of
           None \<Rightarrow> cost_matches ext pattern candidates ms
         | Some v \<Rightarrow>
             if 300000 \<le> v \<and> v \<le> 1500000
             then cost_matches ext pattern (candidates @ [(v, pattern)]) ms
             else cost_matches ext pattern candidates ms)"

fun cost_loop :: "externals \<Rightarrow> string \<Rightarrow> (real \<times> cost_pattern) list \<Rightarrow> cost_pattern list
    \<Rightarrow> (real \<times> cost_pattern) list" where
  "cost_loop ext ocr_text candidates [] = candidates"
| "cost_loop ext ocr_text candidates (pattern # rest) =
     cost_loop ext ocr_text
       (cost_matches ext pattern candidates (findall_cost ext pattern ocr_text)) rest"

text \<open>\<^verbatim>\<open>max(candidates, key=lambda x: x[0])\<close> on a non-empty list: the earliest of the
  largest.\<close>

fun max_by_value :: "real \<times> cost_pattern \<Rightarrow> (real \<times> cost_pattern) list \<Rightarrow> real \<times> cost_pattern" where
  "max_by_value best [] = best"
| "max_by_value best (x # xs) = max_by_value (if fst best < fst x then x else best) xs"

text \<open>What the format specification \<^verbatim>\<open>:,.2f\<close> does to the secondary source's cost: it
  formats a number and raises on anything else.\<close>

fun format_2f :: "py_value \<Rightarrow> py_error + unit" where
  "format_2f (PBool b) = Inr ()"
| "format_2f (PInt i) = Inr ()"
| "format_2f (PFloat r) = Inr ()"
| "format_2f (PStr s) = Inl ValueError"
| "format_2f v = Inl TypeError"

definition extract_asset_cost ::
  "externals \<Rightarrow> string \<Rightarrow> vlm_result \<Rightarrow> py_error + field_result" where
  "extract_asset_cost ext ocr_text vlm =
     (let vlm_cost = vlm_asset_cost vlm
      in if vlm_cost \<noteq> PNone
         then (case py_float ext vlm_cost of
                 Inl e \<Rightarrow> Inl e
               | Inr c \<Rightarrow>
                   (case format_2f vlm_cost of
                      Inl e \<Rightarrow> Inl e
                    | Inr u \<Rightarrow> Inr \<lparr>fvalue = PFloat c, confidence = 9 / 10,
                                    explanation = Cost_from_VLM vlm_cost\<rparr>))
         else (case cost_loop ext ocr_text [] cost_patterns of
                 [] \<Rightarrow> Inr \<lparr>fvalue = PNone, confidence = 0, explanation = No_valid_cost\<rparr>
               | c # cs \<Rightarrow>
                   (let (best_value, best_pattern) = max_by_value c cs
                    in Inr \<lparr>fvalue = PFloat best_value, confidence = 85 / 100,
                            explanation = Cost_using_pattern best_value best_pattern\<rparr>)))"

section \<open>All fields of one document\<close>

text \<open>A field result as the dictionary the validator reads. A transcript that is not a
  string has no \<^verbatim>\<open>split\<close>: the first extractor raises \<^verbatim>\<open>AttributeError\<close>.\<close>

definition result_dict :: "externals \<Rightarrow> field_result \<Rightarrow> py_value" where
  "result_dict ext r =
     PDict [(''value'', fvalue r), (''confidence'', PFloat (confidence r)),
            (''explanation'', PStr (render ext (explanation r)))]"

definition absent_detection :: py_value where
  "absent_detection = PDict [(''present'', PBool False), (''bbox'', PNone)]"

definition extract_all_fields ::
  "field_extractor \<Rightarrow> externals \<Rightarrow> dict \<Rightarrow> vlm_result \<Rightarrow> dict \<Rightarrow> py_error + dict" where
  "extract_all_fields fe ext ocr_result vlm detection_result =
     (case dict_get ocr_result ''full_text'' (PStr []) of
        PStr ocr_text \<Rightarrow>
          (let dealer = extract_dealer_name fe ext ocr_text vlm;
               model = extract_model_name fe ext ocr_text vlm
           in case extract_horse_power ext ocr_text vlm of
                Inl e \<Rightarrow> Inl e
              | Inr hp \<Rightarrow>
                  (case extract_asset_cost ext ocr_text vlm of
                     Inl e \<Rightarrow> Inl e
                   | Inr cost \<Rightarrow>
                       Inr [(''dealer_name'', result_dict ext dealer),
                            (''model_name'', result_dict ext model),
                            (''horse_power'', result_dict ext hp),
                            (''asset_cost'', result_dict ext cost),
                            (''dealer_signature'',
                               dict_get detection_result ''signature'' absent_detection),
                            (''dealer_stamp'',
                               dict_get detection_result ''stamp'' absent_detection)]))
      | other \<Rightarrow> Inl AttributeError)"

section \<open>Validator\<close>

record validator =
  min_confidence :: real

text \<open>\<^verbatim>\<open>Validator()\<close>, with the default of its constructor.\<close>

definition Validator :: validator where
  "Validator = \<lparr>min_confidence = 5 / 10\<rparr>"

type_synonym validated = "string \<rightharpoonup> py_value"

definition validate_hp_range :: "externals \<Rightarrow> py_value \<Rightarrow> bool" where
  "validate_hp_range ext hp_value =
     (case py_float ext hp_value of
        Inl e \<Rightarrow> False
      | Inr hp \<Rightarrow> 15 \<le> hp \<and> hp \<le> 200)"

definition validate_cost_range :: "externals \<Rightarrow> py_value \<Rightarrow> bool" where
  "validate_cost_range ext cost_value =
     (case py_float ext cost_value of
        Inl e \<Rightarrow> False
      | Inr cost \<Rightarrow> 200000 \<le> cost \<and> cost \<le> 2000000)"

text \<open>\<^verbatim>\<open>_validate_bbox\<close>: the body of the \<^verbatim>\<open>try\<close> first, as a result or the error it
  raises; the bare \<^verbatim>\<open>except\<close> and every failed test fall through to \<^verbatim>\<open>return None\<close>.\<close>

definition bbox_try :: "externals \<Rightarrow> py_value \<Rightarrow> py_value \<Rightarrow> py_value \<Rightarrow> py_value
    \<Rightarrow> py_error + py_value option" where
  "bbox_try ext x y w h =
     (if list_all is_number [x, y, w, h]
      then if 0 \<le> num_of x \<and> 0 \<le> num_of y \<and> 0 < num_of w \<and> 0 < num_of h
           then (case (py_int ext x, py_int ext y, py_int ext w, py_int ext h) of
                   (Inr a, Inr b, Inr c, Inr d) \<Rightarrow> Inr (Some (PList [PInt a, PInt b, PInt c, PInt d]))
                 | other \<Rightarrow> Inl ValueError)
           else Inr None
      else Inr None)"

definition validate_bbox :: "externals \<Rightarrow> py_value \<Rightarrow> py_value" where
  "validate_bbox ext bbox =
     (if bbox = PNone then PNone
      else case bbox of
          PList [x, y, w, h] \<Rightarrow>
            (case bbox_try ext x y w h of
               Inr (Some box) \<Rightarrow> box
             | other \<Rightarrow> PNone)
        | other \<Rightarrow> PNone)"

text \<open>The six parts of \<^verbatim>\<open>validate\<close>, each adding its keys to \<^verbatim>\<open>validated\<close>.\<close>

definition validate_dealer_name :: "validator \<Rightarrow> dict \<Rightarrow> validated \<Rightarrow> py_error + validated" where
  "validate_dealer_name self flds validated =
     (case dict_get flds ''dealer_name'' (PDict []) of
        PDict dealer \<Rightarrow>
          (case py_ge (dict_get dealer ''confidence'' (PInt 0)) (min_confidence self) of
             Inl e \<Rightarrow> Inl e
           | Inr accept \<Rightarrow>
               if accept
               then Inr (validated
                      (''dealer_name'' \<mapsto> dict_get dealer ''value'' PNone,
                       ''dealer_name_confidence'' \<mapsto> dict_get dealer ''confidence'' PNone,
                       ''dealer_name_explanation'' \<mapsto> dict_get dealer ''explanation'' PNone))
               else Inr (validated
                      (''dealer_name'' \<mapsto> PNone,
                       ''dealer_name_confidence'' \<mapsto> dict_get dealer ''confidence'' (PFloat 0),
                       ''dealer_name_explanation'' \<mapsto>
                          dict_get dealer ''explanation'' (PStr ''Low confidence''))))
      | dealer \<Rightarrow>
          Inr (validated
            (''dealer_name'' \<mapsto> dealer,
             ''dealer_name_confidence'' \<mapsto> PFloat (5 / 10),
             ''dealer_name_explanation'' \<mapsto> PStr ''Direct extraction'')))"

definition validate_model_name :: "validator \<Rightarrow> dict \<Rightarrow> validated \<Rightarrow> py_error + validated" where
  "validate_model_name self flds validated =
     (case dict_get flds ''model_name'' (PDict []) of
        PDict model \<Rightarrow>
          (case py_ge (dict_get model ''confidence'' (PInt 0)) (min_confidence self) of
             Inl e \<Rightarrow> Inl e
           | Inr accept \<Rightarrow>
               if accept
               then Inr (validated
                      (''model_name'' \<mapsto> dict_get model ''value'' PNone,
                       ''model_name_confidence'' \<mapsto> dict_get model ''confidence'' PNone,
                       ''model_name_explanation'' \<mapsto> dict_get model ''explanation'' PNone))
               else Inr (validated
                      (''model_name'' \<mapsto> PNone,
                       ''model_name_confidence'' \<mapsto> dict_get model ''confidence'' (PFloat 0),
                       ''model_name_explanation'' \<mapsto>
                          dict_get model ''explanation'' (PStr ''Low confidence''))))
      | model \<Rightarrow>
          Inr (validated
            (''model_name'' \<mapsto> model,
             ''model_name_confidence'' \<mapsto> PFloat (5 / 10),
             ''model_name_explanation'' \<mapsto> PStr ''Direct extraction'')))"

definition validate_horse_power :: "externals \<Rightarrow> dict \<Rightarrow> validated \<Rightarrow> py_error + validated" where
  "validate_horse_power ext flds validated =
     (case dict_get flds ''horse_power'' (PDict []) of
        PDict hp \<Rightarrow>
          (let hp_value = dict_get hp ''value'' PNone
           in if truthy hp_value \<and> validate_hp_range ext hp_value
              then (case py_int ext hp_value of
                      Inl e \<Rightarrow> Inl e
                    | Inr n \<Rightarrow> Inr (validated
                        (''horse_power'' \<mapsto> PInt n,
                         ''horse_power_confidence'' \<mapsto> dict_get hp ''confidence'' PNone,
                         ''horse_power_explanation'' \<mapsto> dict_get hp ''explanation'' PNone)))
              else Inr (validated
                     (''horse_power'' \<mapsto> PNone,
                      ''horse_power_confidence'' \<mapsto> dict_get hp ''confidence'' (PFloat 0),
                      ''horse_power_explanation'' \<mapsto>
                         dict_get hp ''explanation'' (PStr ''Invalid range or not found''))))
      | hp_value \<Rightarrow>
          if truthy hp_value \<and> validate_hp_range ext hp_value
          then (case py_int ext hp_value of
                  Inl e \<Rightarrow> Inl e
                | Inr n \<Rightarrow> Inr (validated
                    (''horse_power'' \<mapsto> PInt n,
                     ''horse_power_confidence'' \<mapsto> PFloat (7 / 10),
                     ''horse_power_explanation'' \<mapsto> PStr ''Direct extraction'')))
          else Inr (validated
                 (''horse_power'' \<mapsto> PNone,
                  ''horse_power_confidence'' \<mapsto> PFloat 0,
                  ''horse_power_explanation'' \<mapsto> PStr ''Invalid or not found'')))"

definition validate_asset_cost :: "externals \<Rightarrow> dict \<Rightarrow> validated \<Rightarrow> py_error + validated" where
  "validate_asset_cost ext flds validated =
     (case dict_get flds ''asset_cost'' (PDict []) of
        PDict cost \<Rightarrow>
          (let cost_value = dict_get cost ''value'' PNone
           in if truthy cost_value \<and> validate_cost_range ext cost_value
              then (case py_float ext cost_value of
                      Inl e \<Rightarrow> Inl e
                    | Inr c \<Rightarrow> Inr (validated
                        (''asset_cost'' \<mapsto> PFloat c,
                         ''asset_cost_confidence'' \<mapsto> dict_get cost ''confidence'' PNone,
                         ''asset_cost_explanation'' \<mapsto> dict_get cost ''explanation'' PNone)))
              else Inr (validated
                     (''asset_cost'' \<mapsto> PNone,
                      ''asset_cost_confidence'' \<mapsto> dict_get cost ''confidence'' (PFloat 0),
                      ''asset_cost_explanation'' \<mapsto>
                         dict_get cost ''explanation'' (PStr ''Invalid range or not found''))))
      | cost_value \<Rightarrow>
          if truthy cost_value \<and> validate_cost_range ext cost_value
          then (case py_float ext cost_value of
                  Inl e \<Rightarrow> Inl e
                | Inr c \<Rightarrow> Inr (validated
                    (''asset_cost'' \<mapsto> PFloat c,
                     ''asset_cost_confidence'' \<mapsto> PFloat (7 / 10),
                     ''asset_cost_explanation'' \<mapsto> PStr ''Direct extraction'')))
          else Inr (validated
                 (''asset_cost'' \<mapsto> PNone,
                  ''asset_cost_confidence'' \<mapsto> PFloat 0,
                  ''asset_cost_explanation'' \<mapsto> PStr ''Invalid or not found'')))"

text \<open>A detection payload that is not a dictionary has no \<^verbatim>\<open>get\<close>.\<close>

definition detection_payload :: "externals \<Rightarrow> py_value \<Rightarrow> py_error + py_value" where
  "detection_payload ext payload =
     (case payload of
        PDict d \<Rightarrow>
          Inr (PDict [(''present'', dict_get d ''present'' (PBool False)),
                      (''bbox'', validate_bbox ext (dict_get d ''bbox'' PNone)),
                      (''confidence'', dict_get d ''confidence'' (PFloat 0))])
      | other \<Rightarrow> Inl AttributeError)"

definition validate_signature :: "externals \<Rightarrow> dict \<Rightarrow> validated \<Rightarrow> py_error + validated" where
  "validate_signature ext flds validated =
     (case detection_payload ext (dict_get flds ''dealer_signature'' (PDict [])) of
        Inl e \<Rightarrow> Inl e
      | Inr signature \<Rightarrow> Inr (validated(''dealer_signature'' \<mapsto> signature)))"

definition validate_stamp :: "externals \<Rightarrow> dict \<Rightarrow> validated \<Rightarrow> py_error + validated" where
  "validate_stamp ext flds validated =
     (case detection_payload ext (dict_get flds ''dealer_stamp'' (PDict [])) of
        Inl e \<Rightarrow> Inl e
      | Inr stamp \<Rightarrow> Inr (validated(''dealer_stamp'' \<mapsto> stamp)))"

text \<open>Sequencing of two parts: an error of the first is the error of the whole.\<close>

definition and_then :: "py_error + 'a \<Rightarrow> ('a \<Rightarrow> py_error + 'b) \<Rightarrow> py_error + 'b" where
  "and_then r f = (case r of Inl e \<Rightarrow> Inl e | Inr x \<Rightarrow> f x)"

definition validate :: "validator \<Rightarrow> externals \<Rightarrow> dict \<Rightarrow> py_error + validated" where
  "validate self ext flds =
     and_then (validate_dealer_name self flds Map.empty) (\<lambda>v1.
     and_then (validate_model_name self flds v1) (\<lambda>v2.
     and_then (validate_horse_power ext flds v2) (\<lambda>v3.
     and_then (validate_asset_cost ext flds v3) (\<lambda>v4.
     and_then (validate_signature ext flds v4) (\<lambda>v5.
     validate_stamp ext flds v5)))))"

text \<open>The value of one key of the validated record, or the error of the run.\<close>

definition validated_key :: "string \<Rightarrow> py_error + validated \<Rightarrow> py_error + py_value option" where
  "validated_key k r = (case r of Inl e \<Rightarrow> Inl e | Inr out \<Rightarrow> Inr (out k))"

section \<open>The properties, in the words of the specification\<close>

text \<open>The best score seen: the largest similarity of a non-empty candidate to an entry
  of the master list, and 0 when there is none (the start value of the loop).\<close>

definition best_similarity :: "externals \<Rightarrow> string list \<Rightarrow> string list \<Rightarrow> real" where
  "best_similarity ext master candidates =
     Max (insert 0 {fuzz_ratio ext c m |c m. c \<in> set candidates \<and> c \<noteq> [] \<and> m \<in> set master})"

text \<open>A model candidate qualifies when it is in the master list, or when its best similarity
  to the master list is at least 95.\<close>

definition model_acceptable :: "externals \<Rightarrow> string list \<Rightarrow> string \<Rightarrow> bool" where
  "model_acceptable ext master c \<longleftrightarrow>
     c \<noteq> [] \<and> (c \<in> set master \<or> (\<exists>m \<in> set master. 95 \<le> fuzz_ratio ext c m))"

text \<open>The cleaned numeric value of a cost match, and the plausible values a transcript
  yields over all the cost patterns.\<close>

definition cost_value :: "externals \<Rightarrow> string \<Rightarrow> real option" where
  "cost_value ext m = float_of_str ext (strip (remove_commas m))"

definition plausible_costs :: "externals \<Rightarrow> string \<Rightarrow> real set" where
  "plausible_costs ext ocr_text =
     {v. \<exists>p \<in> set cost_patterns. \<exists>m \<in> set (findall_cost ext p ocr_text).
           cost_value ext m = Some v \<and> 300000 \<le> v \<and> v \<le> 1500000}"

text \<open>The number a pattern's first match reads as, and the test of the extractor's band.\<close>

definition first_match :: "externals \<Rightarrow> string \<Rightarrow> hp_pattern \<Rightarrow> int option" where
  "first_match ext ocr_text p =
     (case findall_hp ext p ocr_text of [] \<Rightarrow> None | m # ms \<Rightarrow> int_of_str ext m)"

definition in_hp_band :: "int \<Rightarrow> bool" where
  "in_hp_band n \<longleftrightarrow> 20 \<le> n \<and> n \<le> 150"

text \<open>Every first match is a numeral \<^verbatim>\<open>int\<close> reads, as the group \<^verbatim>\<open>(\d+)\<close> makes it.\<close>

definition first_matches_numeric :: "externals \<Rightarrow> string \<Rightarrow> bool" where
  "first_matches_numeric ext ocr_text \<longleftrightarrow>
     list_all (\<lambda>p. findall_hp ext p ocr_text = [] \<or> first_match ext ocr_text p \<noteq> None) hp_patterns"

text \<open>A value the validator takes for a horse power: it is truthy, \<^verbatim>\<open>float\<close> reads it,
  and the number read lies in 15 to 200.\<close>

definition hp_acceptable :: "externals \<Rightarrow> py_value \<Rightarrow> bool" where
  "hp_acceptable ext v \<longleftrightarrow> truthy v \<and> (\<exists>x. py_float ext v = Inr x \<and> 15 \<le> x \<and> x \<le> 200)"

text \<open>A well-formed document: each field is a record (or absent), the confidences of the
  names are numbers, the numeric values are numbers or None.\<close>

definition well_formed :: "dict \<Rightarrow> bool" where
  "well_formed flds \<longleftrightarrow>
     (\<exists>d. dict_get flds ''dealer_name'' (PDict []) = PDict d \<and>
          is_number (dict_get d ''confidence'' (PInt 0))) \<and>
     (\<exists>d. dict_get flds ''model_name'' (PDict []) = PDict d \<and>
          is_number (dict_get d ''confidence'' (PInt 0))) \<and>
     (\<exists>d. dict_get flds ''horse_power'' (PDict []) = PDict d \<and>
          (is_number (dict_get d ''value'' PNone) \<or> dict_get d ''value'' PNone = PNone)) \<and>
     (\<exists>d. dict_get flds ''asset_cost'' (PDict []) = PDict d \<and>
          (is_number (dict_get d ''value'' PNone) \<or> dict_get d ''value'' PNone = PNone)) \<and>
     (\<exists>d. dict_get flds ''dealer_signature'' (PDict []) = PDict d) \<and>
     (\<exists>d. dict_get flds ''dealer_stamp'' (PDict []) = PDict d)"

section \<open>A concrete instance of the library functions\<close>

text \<open>
  For the examples: the similarity of \<^verbatim>\<open>fuzz.ratio\<close> (twice the length of a longest
  common subsequence over the sum of the lengths, times 100), the parsers on plain ASCII
  numerals, and \<^verbatim>\<open>re.findall\<close> and the candidate helpers tabulated on the transcripts
  the examples use.
\<close>

fun lcs :: "string \<Rightarrow> string \<Rightarrow> nat" where
  "lcs [] ys = 0"
| "lcs (x # xs) [] = 0"
| "lcs (x # xs) (y # ys) =
     (if x = y then Suc (lcs xs ys) else max (lcs xs (y # ys)) (lcs (x # xs) ys))"

definition indel_ratio :: "string \<Rightarrow> string \<Rightarrow> real" where
  "indel_ratio a b =
     (if a = [] \<and> b = [] then 100
      else 100 * real (2 * lcs a b) / real (length a + length b))"

definition is_digit :: "char \<Rightarrow> bool" where
  "is_digit c \<longleftrightarrow> 48 \<le> (of_char c :: nat) \<and> (of_char c :: nat) \<le> 57"

definition decimal :: "string \<Rightarrow> nat" where
  "decimal s = foldl (\<lambda>n c. 10 * n + (of_char c - 48)) 0 s"

definition ascii_int :: "string \<Rightarrow> int option" where
  "ascii_int s = (if s \<noteq> [] \<and> list_all is_digit s then Some (int (decimal s)) else None)"

definition ascii_float :: "string \<Rightarrow> real option" where
  "ascii_float s =
     (let whole = takeWhile is_digit s; rest = dropWhile is_digit s
      in case rest of
           [] \<Rightarrow> if whole = [] then None else Some (real (decimal whole))
         | c # fraction \<Rightarrow>
             if c = CHR ''.'' \<and> list_all is_digit fraction \<and> (whole \<noteq> [] \<or> fraction \<noteq> [])
             then Some (real (decimal whole) + real (decimal fraction) / 10 ^ length fraction)
             else None)"

text \<open>Four transcripts: a quotation, one with two plausible amounts, one whose first
  power figure is implausible, and one that is a model line.\<close>

definition quotation_text :: string where
  "quotation_text = ''ABC Motors Pvt Ltd'' @ [CHR 0x0A] @ ''45 HP'' @ [CHR 0x0A] @ ''Total: Rs. 450000''"

definition two_amounts_text :: string where
  "two_amounts_text = ''Price: Rs. 350000'' @ [CHR 0x0A] @ ''Total: Rs. 1,200,000''"

definition two_powers_text :: string where
  "two_powers_text = ''500 HP Power: 45''"

definition model_text :: string where
  "model_text = ''Mahindra 475 DI XP Plus''"

fun table_findall_hp :: "hp_pattern \<Rightarrow> string \<Rightarrow> string list" where
  "table_findall_hp Digits_HP t =
     (if t = quotation_text then [''45''] else if t = two_powers_text then [''500''] else [])"
| "table_findall_hp Digits_hp t =
     (if t = quotation_text then [''45''] else if t = two_powers_text then [''500''] else [])"
| "table_findall_hp Digits_horse_power t = []"
| "table_findall_hp HP_digits t = []"
| "table_findall_hp Power_digits t = (if t = two_powers_text then [''45''] else [])"

fun table_findall_cost :: "cost_pattern \<Rightarrow> string \<Rightarrow> string list" where
  "table_findall_cost Label_amount t =
     (if t = quotation_text then [''450000'']
      else if t = two_amounts_text then [''350000'', ''1,200,000''] else [])"
| "table_findall_cost Currency_amount t =
     (if t = quotation_text then [''450000'']
      else if t = two_amounts_text then [''350000'', ''1,200,000''] else [])"
| "table_findall_cost Amount_unit t = []"

definition table_dealer_candidates :: "string \<Rightarrow> string list" where
  "table_dealer_candidates t = (if t = quotation_text then [''ABC Motors Pvt Ltd''] else [])"

definition table_model_candidates :: "string \<Rightarrow> string list" where
  "table_model_candidates t = (if t = model_text then [''Mahindra 475 DI XP Plus''] else [])"

fun template :: "expl \<Rightarrow> string" where
  "template (Fuzzy_matched c m s) = ''Fuzzy matched''"
| "template (No_dealer_match s) = ''No dealer match found''"
| "template (Exact_match c) = ''Exact match found''"
| "template (Matched c m s) = ''Matched''"
| "template No_model_match = ''No model match found in asset master''"
| "template (HP_from_VLM n) = ''Extracted HP from VLM''"
| "template (HP_using_pattern n p) = ''Extracted HP using pattern''"
| "template No_HP_found = ''No HP value found''"
| "template (Cost_from_VLM c) = ''Extracted cost from VLM''"
| "template (Cost_using_pattern c p) = ''Extracted cost using pattern''"
| "template No_valid_cost = ''No valid cost found''"

definition table_ext :: externals where
  "table_ext =
     \<lparr>fuzz_ratio = indel_ratio, findall_hp = table_findall_hp,
      findall_cost = table_findall_cost, int_of_str = ascii_int, float_of_str = ascii_float,
      dealer_candidates = table_dealer_candidates, model_candidates = table_model_candidates,
      render = template\<rparr>"

definition no_vlm :: vlm_result where
  "no_vlm = \<lparr>vlm_dealer_name = None, vlm_model_name = None,
             vlm_horse_power = PNone, vlm_asset_cost = PNone\<rparr>"

definition abc_extractor :: field_extractor where
  "abc_extractor =
     \<lparr>dealer_master = [''ABC Motors Pvt. Ltd.''],
      asset_master = [''Mahindra 475 DI XP Plus'']\<rparr>"

definition short_extractor :: field_extractor where
  "short_extractor =
     \<lparr>dealer_master = [''ABC Motors''], asset_master = []\<rparr>"

text \<open>Documents for the validator: a signature with a box of width zero beside a stamp with
  a good box; a signature reported absent that still carries a box; the payloads the
  detector gives when it finds nothing; and records whose confidence is low.\<close>

definition zero_width_fields :: dict where
  "zero_width_fields =
     [(''dealer_signature'',
         PDict [(''present'', PBool True), (''bbox'', PList [PInt 10, PInt 10, PInt 0, PInt 5]),
                (''confidence'', PFloat (8 / 10))]),
      (''dealer_stamp'',
         PDict [(''present'', PBool True),
                (''bbox'', PList [PFloat (21 / 2), PInt 20, PInt 30, PInt 40]),
                (''confidence'', PFloat (6 / 10))])]"

definition stale_box_fields :: dict where
  "stale_box_fields =
     [(''dealer_signature'',
         PDict [(''present'', PBool False), (''bbox'', PList [PInt 1, PInt 2, PInt 3, PInt 4])])]"

definition nothing_detected_fields :: dict where
  "nothing_detected_fields =
     [(''dealer_signature'',
         PDict [(''present'', PBool False), (''bbox'', PNone), (''confidence'', PFloat 0)]),
      (''dealer_stamp'',
         PDict [(''present'', PBool False), (''bbox'', PNone), (''confidence'', PFloat 0)])]"

definition low_confidence_fields :: dict where
  "low_confidence_fields =
     [(''dealer_name'',
         PDict [(''value'', PStr ''ABC Motors Pvt. Ltd.''), (''confidence'', PFloat (3 / 10)),
                (''explanation'', PStr ''Fuzzy matched'')]),
      (''model_name'', PDict [(''value'', PStr ''Mahindra 475 DI XP Plus'')]),
      (''horse_power'',
         PDict [(''value'', PInt 45), (''confidence'', PFloat (1 / 10)),
                (''explanation'', PStr ''Extracted HP using pattern'')]),
      (''asset_cost'',
         PDict [(''value'', PFloat 450000), (''confidence'', PFloat (1 / 10)),
                (''explanation'', PStr ''Extracted cost using pattern'')])]"

section \<open>Lemmas on matching and on the dealer loop\<close>

lemma extractOne_from_props:
  "extractOne_from sc (b, sc b) cs = (m, s) \<Longrightarrow>
     m \<in> set (b # cs) \<and> s = sc m \<and> (\<forall>c \<in> set (b # cs). sc c \<le> s)"
proof (induction cs arbitrary: b)
  case Nil
  then show ?case by auto
next
  case (Cons c cs)
  show ?case
  proof (cases "sc b < sc c")
    case True
    with Cons.prems have "extractOne_from sc (c, sc c) cs = (m, s)" by simp
    from Cons.IH [OF this] True show ?thesis by auto
  next
    case False
    with Cons.prems have "extractOne_from sc (b, sc b) cs = (m, s)" by simp
    from Cons.IH [OF this] False show ?thesis by auto
  qed
qed

lemma extractOne_None: "extractOne ext q cs = None \<longleftrightarrow> cs = []"
  by (cases cs) simp_all

lemma extractOne_Some:
  assumes "extractOne ext q cs = Some (m, s)"
  shows "m \<in> set cs \<and> s = fuzz_ratio ext q m \<and> (\<forall>c \<in> set cs. fuzz_ratio ext q c \<le> s)"
proof (cases cs)
  case Nil
  with assms show ?thesis by simp
next
  case (Cons c cs')
  with assms have "extractOne_from (fuzz_ratio ext q) (c, fuzz_ratio ext q c) cs' = (m, s)"
    by simp
  from extractOne_from_props [OF this] Cons show ?thesis by auto
qed

text \<open>One round of the dealer loop, as a function of the state.\<close>

lemma dealer_loop_Cons:
  "dealer_loop ext master st (c # cands) =
     dealer_loop ext master
       (if c \<noteq> [] \<and> master \<noteq> [] \<and> best_score st < snd (the (extractOne ext c master))
        then \<lparr>best_match = Some (fst (the (extractOne ext c master))),
              best_score = snd (the (extractOne ext c master)), best_candidate = Some c\<rparr>
        else st) cands"
  by (cases "extractOne ext c master") (auto simp: extractOne_None)

lemma dealer_loop_mono:
  "best_score st \<le> best_score (dealer_loop ext master st cands)"
proof (induction cands arbitrary: st)
  case Nil
  show ?case by simp
next
  case (Cons c cands)
  show ?case
    unfolding dealer_loop_Cons
    by (rule order_trans [OF _ Cons.IH]) simp
qed

lemma dealer_loop_upper:
  assumes "c \<in> set cands" "c \<noteq> []" "m \<in> set master"
  shows "fuzz_ratio ext c m \<le> best_score (dealer_loop ext master st cands)"
  using assms(1)
proof (induction cands arbitrary: st)
  case Nil
  then show ?case by simp
next
  case (Cons d cands)
  show ?case
  proof (cases "c = d")
    case True
    from assms(3) have ne: "master \<noteq> []" by auto
    then obtain r s where ex: "extractOne ext c master = Some (r, s)"
      by (cases "extractOne ext c master") (auto simp: extractOne_None)
    from extractOne_Some [OF ex] assms(3) have le: "fuzz_ratio ext c m \<le> s" by blast
    define st' where "st' = (if best_score st < s
       then \<lparr>best_match = Some r, best_score = s, best_candidate = Some c\<rparr> else st)"
    have eq: "dealer_loop ext master st (d # cands) = dealer_loop ext master st' cands"
      using True assms(2) ex by (simp add: st'_def)
    have "s \<le> best_score st'" by (simp add: st'_def)
    with le dealer_loop_mono [of st' ext master cands] show ?thesis
      unfolding eq by linarith
  next
    case False
    with Cons.prems have "c \<in> set cands" by simp
    from Cons.IH [OF this] show ?thesis
      unfolding dealer_loop_Cons .
  qed
qed

lemma dealer_loop_attained:
  "dealer_loop ext master st cands = st \<or>
   (\<exists>c \<in> set cands. \<exists>m \<in> set master. c \<noteq> [] \<and>
      dealer_loop ext master st cands =
        \<lparr>best_match = Some m, best_score = fuzz_ratio ext c m, best_candidate = Some c\<rparr>)"
proof (induction cands arbitrary: st)
  case Nil
  show ?case by simp
next
  case (Cons d cands)
  show ?case
  proof (cases "d \<noteq> [] \<and> master \<noteq> [] \<and> best_score st < snd (the (extractOne ext d master))")
    case False
    have "dealer_loop ext master st (d # cands) = dealer_loop ext master st cands"
      by (subst dealer_loop_Cons) (simp only: False if_False)
    with Cons.IH [of st] show ?thesis by auto
  next
    case True
    then obtain r s where ex: "extractOne ext d master = Some (r, s)"
      by (cases "extractOne ext d master") (auto simp: extractOne_None)
    from extractOne_Some [OF ex] have r: "r \<in> set master" and s: "s = fuzz_ratio ext d r"
      by blast+
    let ?st = "\<lparr>best_match = Some r, best_score = fuzz_ratio ext d r, best_candidate = Some d\<rparr>"
    have eq: "dealer_loop ext master st (d # cands) = dealer_loop ext master ?st cands"
      unfolding dealer_loop_Cons using True ex s by simp
    from Cons.IH [of ?st] show ?thesis
    proof
      assume "dealer_loop ext master ?st cands = ?st"
      with eq r True show ?thesis by auto
    next
      assume "\<exists>c \<in> set cands. \<exists>m \<in> set master. c \<noteq> [] \<and>
        dealer_loop ext master ?st cands =
          \<lparr>best_match = Some m, best_score = fuzz_ratio ext c m, best_candidate = Some c\<rparr>"
      with eq show ?thesis by auto
    qed
  qed
qed

lemma finite_scores:
  "finite {fuzz_ratio ext c m |c m. c \<in> set cands \<and> c \<noteq> [] \<and> m \<in> set master}"
proof -
  have "{fuzz_ratio ext c m |c m. c \<in> set cands \<and> c \<noteq> [] \<and> m \<in> set master}
        \<subseteq> (\<lambda>(c, m). fuzz_ratio ext c m) ` (set cands \<times> set master)"
    by auto
  then show ?thesis by (rule finite_subset) simp
qed

lemma dealer_loop_best:
  "best_score (dealer_loop ext master dealer_init cands) = best_similarity ext master cands"
proof -
  let ?S = "{fuzz_ratio ext c m |c m. c \<in> set cands \<and> c \<noteq> [] \<and> m \<in> set master}"
  let ?st = "dealer_loop ext master dealer_init cands"
  have fin: "finite (insert 0 ?S)" using finite_scores by simp
  have zero: "0 \<le> best_score ?st"
    using dealer_loop_mono [of dealer_init ext master cands] by (simp add: dealer_init_def)
  have ub: "\<And>y. y \<in> insert 0 ?S \<Longrightarrow> y \<le> best_score ?st"
    using zero dealer_loop_upper by auto
  have mem: "best_score ?st \<in> insert 0 ?S"
    using dealer_loop_attained [of ext master dealer_init cands]
  proof
    assume "?st = dealer_init"
    then show ?thesis by (simp add: dealer_init_def)
  next
    assume "\<exists>c \<in> set cands. \<exists>m \<in> set master. c \<noteq> [] \<and>
      ?st = \<lparr>best_match = Some m, best_score = fuzz_ratio ext c m, best_candidate = Some c\<rparr>"
    then obtain c m where "c \<in> set cands" "m \<in> set master" "c \<noteq> []"
      "best_score ?st = fuzz_ratio ext c m" by force
    then show ?thesis by auto
  qed
  have "Max (insert 0 ?S) = best_score ?st"
    using fin ub mem by (rule Max_eqI)
  then show ?thesis by (simp add: best_similarity_def)
qed

lemma best_similarity_nonneg: "0 \<le> best_similarity ext master cands"
  unfolding best_similarity_def using finite_scores by (intro Max_ge) auto

text \<open>The best score as a maximum over a list, for evaluation.\<close>

lemma best_similarity_list:
  "best_similarity ext master cands =
     Max (set (0 # concat (map (\<lambda>c. map (fuzz_ratio ext c) master) (filter (\<lambda>c. c \<noteq> []) cands))))"
proof -
  have "{fuzz_ratio ext c m |c m. c \<in> set cands \<and> c \<noteq> [] \<and> m \<in> set master}
        = set (concat (map (\<lambda>c. map (fuzz_ratio ext c) master) (filter (\<lambda>c. c \<noteq> []) cands)))"
    by auto
  then show ?thesis by (simp add: best_similarity_def)
qed

text \<open>The two outcomes of \<^verbatim>\<open>extract_dealer_name\<close>.\<close>

lemma extract_dealer_name_accept:
  assumes "90 \<le> best_similarity ext (dealer_master fe)
             (name_candidates (vlm_dealer_name vlm) (dealer_candidates ext ocr_text))"
  shows "\<exists>c \<in> set (name_candidates (vlm_dealer_name vlm) (dealer_candidates ext ocr_text)).
         \<exists>m \<in> set (dealer_master fe). c \<noteq> [] \<and>
           fuzz_ratio ext c m = best_similarity ext (dealer_master fe)
             (name_candidates (vlm_dealer_name vlm) (dealer_candidates ext ocr_text)) \<and>
           extract_dealer_name fe ext ocr_text vlm =
             \<lparr>fvalue = PStr m, confidence = fuzz_ratio ext c m / 100,
              explanation = Fuzzy_matched (PStr c) (PStr m) (fuzz_ratio ext c m)\<rparr>"
proof -
  let ?cands = "name_candidates (vlm_dealer_name vlm) (dealer_candidates ext ocr_text)"
  let ?st = "dealer_loop ext (dealer_master fe) dealer_init ?cands"
  have best: "best_score ?st = best_similarity ext (dealer_master fe) ?cands"
    by (rule dealer_loop_best)
  with assms have ge: "90 \<le> best_score ?st" by simp
  then have "?st \<noteq> dealer_init" by (auto simp: dealer_init_def)
  with dealer_loop_attained [of ext "dealer_master fe" dealer_init ?cands]
  obtain c m where c: "c \<in> set ?cands" and m: "m \<in> set (dealer_master fe)" and ne: "c \<noteq> []"
    and st: "?st = \<lparr>best_match = Some m, best_score = fuzz_ratio ext c m, best_candidate = Some c\<rparr>"
    by blast
  from st best have sc: "fuzz_ratio ext c m = best_similarity ext (dealer_master fe) ?cands"
    by simp
  from ge st have "extract_dealer_name fe ext ocr_text vlm =
      \<lparr>fvalue = PStr m, confidence = fuzz_ratio ext c m / 100,
       explanation = Fuzzy_matched (PStr c) (PStr m) (fuzz_ratio ext c m)\<rparr>"
    by (simp add: extract_dealer_name_def Let_def str_or_none_def)
  with c m ne sc show ?thesis by blast
qed

lemma extract_dealer_name_reject:
  assumes "best_similarity ext (dealer_master fe)
             (name_candidates (vlm_dealer_name vlm) (dealer_candidates ext ocr_text)) < 90"
  shows "extract_dealer_name fe ext ocr_text vlm =
           \<lparr>fvalue = PNone, confidence = 0,
            explanation = No_dealer_match (best_similarity ext (dealer_master fe)
              (name_candidates (vlm_dealer_name vlm) (dealer_candidates ext ocr_text)))\<rparr>"
  using assms by (simp add: extract_dealer_name_def Let_def dealer_loop_best)

section \<open>Dealer name: best of all candidates\<close>

text \<open>
  C1. \<^verbatim>\<open>extract_dealer_name\<close> keeps the single best triple over all the candidates. When
  the best similarity of any candidate to any entry of the dealer master list is at least
  90, the result is a master entry that reaches this best similarity with some candidate,
  with confidence best/100 and an explanation naming the candidate, the entry and the
  score. When it is below 90 the value is None and the explanation reports the best score.
\<close>

theorem extract_dealer_name_best_of_all:
  "let candidates = name_candidates (vlm_dealer_name vlm) (dealer_candidates ext ocr_text);
       best = best_similarity ext (dealer_master fe) candidates;
       result = extract_dealer_name fe ext ocr_text vlm
   in (90 \<le> best \<longrightarrow>
         (\<exists>c \<in> set candidates. \<exists>m \<in> set (dealer_master fe). c \<noteq> [] \<and>
            fuzz_ratio ext c m = best \<and>
            result = \<lparr>fvalue = PStr m, confidence = best / 100,
                      explanation = Fuzzy_matched (PStr c) (PStr m) best\<rparr>)) \<and>
      (best < 90 \<longrightarrow>
         result = \<lparr>fvalue = PNone, confidence = 0, explanation = No_dealer_match best\<rparr>)"
proof -
  let ?cands = "name_candidates (vlm_dealer_name vlm) (dealer_candidates ext ocr_text)"
  let ?best = "best_similarity ext (dealer_master fe) ?cands"
  have "90 \<le> ?best \<Longrightarrow>
      \<exists>c \<in> set ?cands. \<exists>m \<in> set (dealer_master fe). c \<noteq> [] \<and>
        fuzz_ratio ext c m = ?best \<and>
        extract_dealer_name fe ext ocr_text vlm =
          \<lparr>fvalue = PStr m, confidence = ?best / 100,
           explanation = Fuzzy_matched (PStr c) (PStr m) ?best\<rparr>"
  proof -
    assume "90 \<le> ?best"
    from extract_dealer_name_accept [OF this]
    obtain c m where "c \<in> set ?cands" "m \<in> set (dealer_master fe)" "c \<noteq> []"
      "fuzz_ratio ext c m = ?best"
      "extract_dealer_name fe ext ocr_text vlm =
         \<lparr>fvalue = PStr m, confidence = fuzz_ratio ext c m / 100,
          explanation = Fuzzy_matched (PStr c) (PStr m) (fuzz_ratio ext c m)\<rparr>"
      by blast
    then show ?thesis by auto
  qed
  moreover have "?best < 90 \<Longrightarrow> extract_dealer_name fe ext ocr_text vlm =
      \<lparr>fvalue = PNone, confidence = 0, explanation = No_dealer_match ?best\<rparr>"
    by (rule extract_dealer_name_reject)
  ultimately show ?thesis by (simp add: Let_def)
qed

text \<open>The secondary source says \<open>ABC Motors\<close> (similarity 200/3 to the master entry), the
  transcript has \<open>ABC Motors Pvt Ltd\<close> (similarity 1800/19): the later, better candidate
  decides.\<close>

lemma abc_candidates:
  "name_candidates (vlm_dealer_name (no_vlm\<lparr>vlm_dealer_name := Some ''ABC Motors''\<rparr>))
     (dealer_candidates table_ext quotation_text) = [''ABC Motors'', ''ABC Motors Pvt Ltd'']"
  by (simp add: name_candidates_def no_vlm_def table_ext_def table_dealer_candidates_def)

lemma abc_best:
  "best_similarity table_ext (dealer_master abc_extractor)
     [''ABC Motors'', ''ABC Motors Pvt Ltd''] = 1800 / 19"
  by (simp add: best_similarity_list abc_extractor_def table_ext_def indel_ratio_def)

theorem extract_dealer_name_best_of_all_witness:
  "90 \<le> best_similarity table_ext (dealer_master abc_extractor)
           [''ABC Motors'', ''ABC Motors Pvt Ltd''] \<and>
   fvalue (extract_dealer_name abc_extractor table_ext quotation_text
             (no_vlm\<lparr>vlm_dealer_name := Some ''ABC Motors''\<rparr>)) = PStr ''ABC Motors Pvt. Ltd.'' \<and>
   confidence (extract_dealer_name abc_extractor table_ext quotation_text
             (no_vlm\<lparr>vlm_dealer_name := Some ''ABC Motors''\<rparr>)) = 18 / 19"
proof -
  have ge: "90 \<le> best_similarity table_ext (dealer_master abc_extractor)
           [''ABC Motors'', ''ABC Motors Pvt Ltd'']"
    by (simp add: abc_best)
  from extract_dealer_name_best_of_all
         [of "no_vlm\<lparr>vlm_dealer_name := Some ''ABC Motors''\<rparr>" table_ext quotation_text abc_extractor]
  obtain c m where "m \<in> set (dealer_master abc_extractor)"
    and "extract_dealer_name abc_extractor table_ext quotation_text
           (no_vlm\<lparr>vlm_dealer_name := Some ''ABC Motors''\<rparr>) =
         \<lparr>fvalue = PStr m, confidence = (1800 / 19) / 100,
          explanation = Fuzzy_matched (PStr c) (PStr m) (1800 / 19)\<rparr>"
    unfolding Let_def abc_candidates abc_best by auto
  then show ?thesis using ge by (simp add: abc_extractor_def)
qed

section \<open>Dealer name: what a rejection carries\<close>

text \<open>
  C9, as the claim states it, fails: with the master list holding only \<open>ABC Motors\<close>, the
  candidate \<open>ABC Motors Pvt Ltd\<close> has best similarity 500/7, below 90, and the returned
  confidence is 0, not 5/7.
\<close>

lemma short_best:
  "best_similarity table_ext (dealer_master short_extractor)
     (name_candidates (vlm_dealer_name no_vlm) (dealer_candidates table_ext quotation_text))
   = 500 / 7"
  by (simp add: best_similarity_list short_extractor_def table_ext_def indel_ratio_def
      name_candidates_def no_vlm_def table_dealer_candidates_def)

theorem dealer_rejected_confidence_counterexample:
  "best_similarity table_ext (dealer_master short_extractor)
     (name_candidates (vlm_dealer_name no_vlm) (dealer_candidates table_ext quotation_text)) < 90 \<and>
   confidence (extract_dealer_name short_extractor table_ext quotation_text no_vlm) \<noteq>
   best_similarity table_ext (dealer_master short_extractor)
     (name_candidates (vlm_dealer_name no_vlm) (dealer_candidates table_ext quotation_text)) / 100"
proof -
  have lt: "best_similarity table_ext (dealer_master short_extractor)
     (name_candidates (vlm_dealer_name no_vlm) (dealer_candidates table_ext quotation_text)) < 90"
    by (simp add: short_best)
  from extract_dealer_name_reject [OF lt]
  have "confidence (extract_dealer_name short_extractor table_ext quotation_text no_vlm) = 0"
    by simp
  with lt show ?thesis by (simp add: short_best)
qed

section \<open>Model name: the first acceptable candidate\<close>

text \<open>A candidate that does not qualify is passed over.\<close>

lemma model_loop_skip:
  assumes "\<not> model_acceptable ext master c"
  shows "model_loop ext master (c # rest) = model_loop ext master rest"
proof (cases "c = []")
  case True
  then show ?thesis by simp
next
  case False
  with assms have notin: "c \<notin> set master"
    and low: "\<forall>m \<in> set master. \<not> 95 \<le> fuzz_ratio ext c m"
    by (auto simp: model_acceptable_def)
  show ?thesis
  proof (cases "extractOne ext c master")
    case None
    with False notin show ?thesis by simp
  next
    case (Some ms)
    obtain m s where ms: "ms = (m, s)" by (cases ms)
    from extractOne_Some Some ms have "m \<in> set master" "s = fuzz_ratio ext c m" by blast+
    with low have "\<not> 95 \<le> s" by blast
    with False notin Some ms show ?thesis by simp
  qed
qed

lemma model_loop_skip_all:
  "\<forall>p \<in> set pre. \<not> model_acceptable ext master p \<Longrightarrow>
   model_loop ext master (pre @ rest) = model_loop ext master rest"
proof (induction pre)
  case Nil
  show ?case by simp
next
  case (Cons p pre)
  then have "model_loop ext master (p # (pre @ rest)) = model_loop ext master (pre @ rest)"
    by (intro model_loop_skip) simp
  with Cons show ?case by simp
qed

text \<open>A candidate that qualifies ends the loop, whatever follows it.\<close>

lemma model_loop_exact:
  "c \<noteq> [] \<Longrightarrow> c \<in> set master \<Longrightarrow>
   model_loop ext master (c # rest) =
     \<lparr>fvalue = PStr c, confidence = 1, explanation = Exact_match c\<rparr>"
  by simp

lemma model_loop_fuzzy:
  assumes "c \<noteq> []" "c \<notin> set master" "\<exists>m \<in> set master. 95 \<le> fuzz_ratio ext c m"
  shows "\<exists>m \<in> set master. 95 \<le> fuzz_ratio ext c m \<and>
           (\<forall>r \<in> set master. fuzz_ratio ext c r \<le> fuzz_ratio ext c m) \<and>
           model_loop ext master (c # rest) =
             \<lparr>fvalue = PStr m, confidence = fuzz_ratio ext c m / 100,
              explanation = Matched c m (fuzz_ratio ext c m)\<rparr>"
proof -
  from assms(3) have "master \<noteq> []" by auto
  then obtain m s where ex: "extractOne ext c master = Some (m, s)"
    by (cases "extractOne ext c master") (auto simp: extractOne_None)
  from extractOne_Some [OF ex] have m: "m \<in> set master" and s: "s = fuzz_ratio ext c m"
    and ub: "\<forall>r \<in> set master. fuzz_ratio ext c r \<le> s" by blast+
  from assms(3) ub have ge: "95 \<le> s" by fastforce
  from assms(1,2) ex ge have "model_loop ext master (c # rest) =
      \<lparr>fvalue = PStr m, confidence = s / 100, explanation = Matched c m s\<rparr>"
    by simp
  with m s ub ge show ?thesis by blast
qed

text \<open>
  C2. \<^verbatim>\<open>extract_model_name\<close> returns at the first candidate that qualifies. When no
  candidate qualifies the value is None with confidence 0. Otherwise, for the first
  qualifying candidate \<open>c\<close> of the list: if \<open>c\<close> is in the asset master list the result is
  \<open>c\<close> itself with confidence 1; if not, the result is a master entry of largest
  similarity to \<open>c\<close> (at least 95) with confidence score/100. The candidates after \<open>c\<close>
  play no part, whatever their scores.
\<close>

theorem extract_model_name_first_acceptable:
  "let candidates = name_candidates (vlm_model_name vlm) (model_candidates ext ocr_text);
       master = asset_master fe;
       result = extract_model_name fe ext ocr_text vlm
   in ((\<forall>c \<in> set candidates. \<not> model_acceptable ext master c) \<longrightarrow>
         result = \<lparr>fvalue = PNone, confidence = 0, explanation = No_model_match\<rparr>) \<and>
      (\<forall>pre c post.
         candidates = pre @ c # post \<and> (\<forall>p \<in> set pre. \<not> model_acceptable ext master p) \<and>
         model_acceptable ext master c \<longrightarrow>
           (if c \<in> set master
            then result = \<lparr>fvalue = PStr c, confidence = 1, explanation = Exact_match c\<rparr>
            else \<exists>m \<in> set master. 95 \<le> fuzz_ratio ext c m \<and>
                   (\<forall>r \<in> set master. fuzz_ratio ext c r \<le> fuzz_ratio ext c m) \<and>
                   result = \<lparr>fvalue = PStr m, confidence = fuzz_ratio ext c m / 100,
                             explanation = Matched c m (fuzz_ratio ext c m)\<rparr>))"
proof -
  let ?cands = "name_candidates (vlm_model_name vlm) (model_candidates ext ocr_text)"
  let ?master = "asset_master fe"
  have none: "\<forall>c \<in> set ?cands. \<not> model_acceptable ext ?master c \<Longrightarrow>
      model_loop ext ?master ?cands =
        \<lparr>fvalue = PNone, confidence = 0, explanation = No_model_match\<rparr>"
    using model_loop_skip_all [of ?cands ext ?master "[]"] by simp
  have first: "if c \<in> set ?master
      then model_loop ext ?master ?cands =
             \<lparr>fvalue = PStr c, confidence = 1, explanation = Exact_match c\<rparr>
      else \<exists>m \<in> set ?master. 95 \<le> fuzz_ratio ext c m \<and>
             (\<forall>r \<in> set ?master. fuzz_ratio ext c r \<le> fuzz_ratio ext c m) \<and>
             model_loop ext ?master ?cands =
               \<lparr>fvalue = PStr m, confidence = fuzz_ratio ext c m / 100,
                explanation = Matched c m (fuzz_ratio ext c m)\<rparr>"
    if split: "?cands = pre @ c # post"
      and pre: "\<forall>p \<in> set pre. \<not> model_acceptable ext ?master p"
      and acc: "model_acceptable ext ?master c" for pre c post
  proof -
    have eq: "model_loop ext ?master ?cands = model_loop ext ?master (c # post)"
      unfolding split using pre by (rule model_loop_skip_all)
    from acc have ne: "c \<noteq> []" by (simp add: model_acceptable_def)
    show ?thesis
    proof (cases "c \<in> set ?master")
      case True
      from model_loop_exact [OF ne True, of ext post] True show ?thesis
        unfolding eq by (simp only: if_True)
    next
      case False
      with acc have "\<exists>m \<in> set ?master. 95 \<le> fuzz_ratio ext c m"
        by (simp add: model_acceptable_def)
      from model_loop_fuzzy [OF ne False this, of post] False show ?thesis
        unfolding eq by (simp only: if_False)
    qed
  qed
  from none first show ?thesis
    unfolding Let_def extract_model_name_def by blast
qed

text \<open>The secondary source reads \<open>Mahindra 475 DI XP Plu\<close> (similarity 880/9 to the
  master entry); the transcript line is the master entry itself and would score 100. The
  first candidate is taken.\<close>

lemma plu_candidates:
  "name_candidates (vlm_model_name (no_vlm\<lparr>vlm_model_name := Some ''Mahindra 475 DI XP Plu''\<rparr>))
     (model_candidates table_ext model_text)
   = [] @ ''Mahindra 475 DI XP Plu'' # [''Mahindra 475 DI XP Plus'']"
  by (simp add: name_candidates_def no_vlm_def table_ext_def table_model_candidates_def)

lemma plu_ratio:
  "fuzz_ratio table_ext ''Mahindra 475 DI XP Plu'' ''Mahindra 475 DI XP Plus'' = 880 / 9"
  by (simp add: table_ext_def indel_ratio_def)

lemma plu_acceptable:
  "model_acceptable table_ext (asset_master abc_extractor) ''Mahindra 475 DI XP Plu''"
  by (simp add: model_acceptable_def abc_extractor_def plu_ratio)

theorem extract_model_name_first_acceptable_witness:
  "model_acceptable table_ext (asset_master abc_extractor) ''Mahindra 475 DI XP Plu'' \<and>
   fuzz_ratio table_ext ''Mahindra 475 DI XP Plu'' ''Mahindra 475 DI XP Plus''
     < fuzz_ratio table_ext ''Mahindra 475 DI XP Plus'' ''Mahindra 475 DI XP Plus'' \<and>
   extract_model_name abc_extractor table_ext model_text
       (no_vlm\<lparr>vlm_model_name := Some ''Mahindra 475 DI XP Plu''\<rparr>) =
     \<lparr>fvalue = PStr ''Mahindra 475 DI XP Plus'', confidence = 44 / 45,
      explanation = Matched ''Mahindra 475 DI XP Plu'' ''Mahindra 475 DI XP Plus'' (880 / 9)\<rparr>"
proof -
  let ?vlm = "no_vlm\<lparr>vlm_model_name := Some ''Mahindra 475 DI XP Plu''\<rparr>"
  have notin: "''Mahindra 475 DI XP Plu'' \<notin> set (asset_master abc_extractor)"
    by (simp add: abc_extractor_def)
  have later: "fuzz_ratio table_ext ''Mahindra 475 DI XP Plu'' ''Mahindra 475 DI XP Plus''
     < fuzz_ratio table_ext ''Mahindra 475 DI XP Plus'' ''Mahindra 475 DI XP Plus''"
    by (simp add: table_ext_def indel_ratio_def)
  from extract_model_name_first_acceptable [of ?vlm table_ext model_text abc_extractor]
  have "\<forall>pre c post.
      name_candidates (vlm_model_name ?vlm) (model_candidates table_ext model_text)
        = pre @ c # post \<and>
      (\<forall>p \<in> set pre. \<not> model_acceptable table_ext (asset_master abc_extractor) p) \<and>
      model_acceptable table_ext (asset_master abc_extractor) c \<longrightarrow>
      (if c \<in> set (asset_master abc_extractor)
       then extract_model_name abc_extractor table_ext model_text ?vlm =
              \<lparr>fvalue = PStr c, confidence = 1, explanation = Exact_match c\<rparr>
       else \<exists>m \<in> set (asset_master abc_extractor). 95 \<le> fuzz_ratio table_ext c m \<and>
              (\<forall>r \<in> set (asset_master abc_extractor).
                 fuzz_ratio table_ext c r \<le> fuzz_ratio table_ext c m) \<and>
              extract_model_name abc_extractor table_ext model_text ?vlm =
                \<lparr>fvalue = PStr m, confidence = fuzz_ratio table_ext c m / 100,
                 explanation = Matched c m (fuzz_ratio table_ext c m)\<rparr>)"
    unfolding Let_def by (rule conjunct2)
  from this [rule_format, of "[]" "''Mahindra 475 DI XP Plu''" "[''Mahindra 475 DI XP Plus'']"]
    plu_candidates plu_acceptable notin
  obtain m where "m \<in> set (asset_master abc_extractor)"
    and "extract_model_name abc_extractor table_ext model_text ?vlm =
           \<lparr>fvalue = PStr m,
            confidence = fuzz_ratio table_ext ''Mahindra 475 DI XP Plu'' m / 100,
            explanation = Matched ''Mahindra 475 DI XP Plu'' m
              (fuzz_ratio table_ext ''Mahindra 475 DI XP Plu'' m)\<rparr>"
    by auto
  then have "extract_model_name abc_extractor table_ext model_text ?vlm =
     \<lparr>fvalue = PStr ''Mahindra 475 DI XP Plus'', confidence = 44 / 45,
      explanation = Matched ''Mahindra 475 DI XP Plu'' ''Mahindra 475 DI XP Plus'' (880 / 9)\<rparr>"
    by (simp add: abc_extractor_def plu_ratio)
  with plu_acceptable later show ?thesis by blast
qed

section \<open>Asset cost: the largest plausible amount\<close>

lemma cost_matches_values:
  "fst ` set (cost_matches ext p cands ms) =
     fst ` set cands \<union>
     {v. \<exists>m \<in> set ms. cost_value ext m = Some v \<and> 300000 \<le> v \<and> v \<le> 1500000}"
proof (induction ms arbitrary: cands)
  case Nil
  show ?case by simp
next
  case (Cons m ms)
  show ?case
  proof (cases "float_of_str ext (strip (remove_commas m))")
    case None
    then show ?thesis using Cons.IH [of cands] by (auto simp: cost_value_def)
  next
    case (Some v)
    show ?thesis
    proof (cases "300000 \<le> v \<and> v \<le> 1500000")
      case True
      with Some show ?thesis
        using Cons.IH [of "cands @ [(v, p)]"] by (auto simp: cost_value_def)
    next
      case False
      with Some show ?thesis using Cons.IH [of cands] by (auto simp: cost_value_def)
    qed
  qed
qed

lemma cost_loop_values:
  "fst ` set (cost_loop ext t cands ps) =
     fst ` set cands \<union>
     {v. \<exists>p \<in> set ps. \<exists>m \<in> set (findall_cost ext p t).
           cost_value ext m = Some v \<and> 300000 \<le> v \<and> v \<le> 1500000}"
proof (induction ps arbitrary: cands)
  case Nil
  show ?case by simp
next
  case (Cons p ps)
  show ?case
    by (simp only: cost_loop.simps Cons.IH cost_matches_values) auto
qed

lemma plausible_costs_loop:
  "plausible_costs ext t = fst ` set (cost_loop ext t [] cost_patterns)"
  by (simp add: cost_loop_values plausible_costs_def)

lemma max_by_value_mem: "max_by_value b xs \<in> set (b # xs)"
proof (induction xs arbitrary: b)
  case Nil
  show ?case by simp
next
  case (Cons x xs)
  from Cons.IH [of "if fst b < fst x then x else b"] show ?case
    by (auto split: if_splits)
qed

lemma max_by_value_start: "fst b \<le> fst (max_by_value b xs)"
proof (induction xs arbitrary: b)
  case Nil
  show ?case by simp
next
  case (Cons x xs)
  have "fst b \<le> fst (if fst b < fst x then x else b)" by simp
  also have "\<dots> \<le> fst (max_by_value (if fst b < fst x then x else b) xs)"
    by (rule Cons.IH)
  finally show ?case by simp
qed

lemma max_by_value_upper: "y \<in> set (b # xs) \<Longrightarrow> fst y \<le> fst (max_by_value b xs)"
proof (induction xs arbitrary: b)
  case Nil
  then show ?case by simp
next
  case (Cons x xs)
  let ?b = "if fst b < fst x then x else b"
  have step: "max_by_value b (x # xs) = max_by_value ?b xs" by simp
  from Cons.prems consider "y = b \<or> y = x" | "y \<in> set xs" by auto
  then show ?case
  proof cases
    case 1
    then have "fst y \<le> fst ?b" by auto
    also have "\<dots> \<le> fst (max_by_value ?b xs)" by (rule max_by_value_start)
    finally show ?thesis unfolding step .
  next
    case 2
    then have "y \<in> set (?b # xs)" by simp
    from Cons.IH [OF this] show ?thesis unfolding step .
  qed
qed

lemma max_by_value_Max: "fst (max_by_value b xs) = Max (fst ` set (b # xs))"
proof -
  have "Max (fst ` set (b # xs)) = fst (max_by_value b xs)"
  proof (rule Max_eqI)
    show "finite (fst ` set (b # xs))" by simp
    show "\<And>y. y \<in> fst ` set (b # xs) \<Longrightarrow> y \<le> fst (max_by_value b xs)"
      using max_by_value_upper by blast
    show "fst (max_by_value b xs) \<in> fst ` set (b # xs)"
      using max_by_value_mem by blast
  qed
  then show ?thesis by simp
qed

text \<open>The two outcomes of the text path.\<close>

lemma extract_asset_cost_none:
  assumes "vlm_asset_cost vlm = PNone" "plausible_costs ext t = {}"
  shows "extract_asset_cost ext t vlm =
           Inr \<lparr>fvalue = PNone, confidence = 0, explanation = No_valid_cost\<rparr>"
proof -
  from assms(2) have "cost_loop ext t [] cost_patterns = []"
    by (simp add: plausible_costs_loop)
  with assms(1) show ?thesis by (simp add: extract_asset_cost_def)
qed

lemma extract_asset_cost_max:
  assumes "vlm_asset_cost vlm = PNone" "plausible_costs ext t \<noteq> {}"
  shows "\<exists>p. extract_asset_cost ext t vlm =
           Inr \<lparr>fvalue = PFloat (Max (plausible_costs ext t)), confidence = 85 / 100,
                explanation = Cost_using_pattern (Max (plausible_costs ext t)) p\<rparr>"
proof -
  from assms(2) obtain c cs where cands: "cost_loop ext t [] cost_patterns = c # cs"
    by (cases "cost_loop ext t [] cost_patterns") (auto simp: plausible_costs_loop)
  obtain v p where best: "max_by_value c cs = (v, p)" by (cases "max_by_value c cs")
  have "v = Max (plausible_costs ext t)"
    using max_by_value_Max [of c cs] best cands by (simp add: plausible_costs_loop)
  with assms(1) cands best show ?thesis
    by (simp add: extract_asset_cost_def)
qed

text \<open>
  C3. With no cost from the secondary source, \<^verbatim>\<open>extract_asset_cost\<close> collects the
  matches of all the cost patterns whose cleaned value (commas removed) lies in 300000 to
  1500000 and returns the largest of them with confidence 0.85; with no such match the value
  is None. A transcript that yields exactly the plausible values 350000 and 1200000 gives
  1200000.
\<close>

theorem extract_asset_cost_maximum:
  assumes "vlm_asset_cost vlm = PNone"
  shows "(plausible_costs ext ocr_text = {} \<longrightarrow>
            extract_asset_cost ext ocr_text vlm =
              Inr \<lparr>fvalue = PNone, confidence = 0, explanation = No_valid_cost\<rparr>) \<and>
         (plausible_costs ext ocr_text \<noteq> {} \<longrightarrow>
            (\<exists>p. extract_asset_cost ext ocr_text vlm =
               Inr \<lparr>fvalue = PFloat (Max (plausible_costs ext ocr_text)), confidence = 85 / 100,
                    explanation = Cost_using_pattern (Max (plausible_costs ext ocr_text)) p\<rparr>)) \<and>
         (plausible_costs ext ocr_text = {350000, 1200000} \<longrightarrow>
            (\<exists>p. extract_asset_cost ext ocr_text vlm =
               Inr \<lparr>fvalue = PFloat 1200000, confidence = 85 / 100,
                    explanation = Cost_using_pattern 1200000 p\<rparr>))"
proof (intro conjI impI)
  assume "plausible_costs ext ocr_text = {}"
  with assms show "extract_asset_cost ext ocr_text vlm =
      Inr \<lparr>fvalue = PNone, confidence = 0, explanation = No_valid_cost\<rparr>"
    by (rule extract_asset_cost_none)
next
  assume "plausible_costs ext ocr_text \<noteq> {}"
  with assms show "\<exists>p. extract_asset_cost ext ocr_text vlm =
      Inr \<lparr>fvalue = PFloat (Max (plausible_costs ext ocr_text)), confidence = 85 / 100,
           explanation = Cost_using_pattern (Max (plausible_costs ext ocr_text)) p\<rparr>"
    by (rule extract_asset_cost_max)
next
  assume two: "plausible_costs ext ocr_text = {350000, 1200000}"
  then have "plausible_costs ext ocr_text \<noteq> {}" by simp
  from extract_asset_cost_max [OF assms this] two
  show "\<exists>p. extract_asset_cost ext ocr_text vlm =
      Inr \<lparr>fvalue = PFloat 1200000, confidence = 85 / 100,
           explanation = Cost_using_pattern 1200000 p\<rparr>"
    by simp
qed

lemma two_amounts_loop:
  "cost_loop table_ext two_amounts_text [] cost_patterns =
     [(350000, Label_amount), (1200000, Label_amount),
      (350000, Currency_amount), (1200000, Currency_amount)]"
  by (simp add: cost_patterns_def table_ext_def two_amounts_text_def quotation_text_def
      strip_def remove_commas_def is_space_def ascii_float_def is_digit_def decimal_def)

text \<open>The transcript with \<open>Price: Rs. 350000\<close> and \<open>Total: Rs. 1,200,000\<close>.\<close>

theorem extract_asset_cost_maximum_witness:
  "vlm_asset_cost no_vlm = PNone \<and>
   plausible_costs table_ext two_amounts_text = {350000, 1200000} \<and>
   map_sum id fvalue (extract_asset_cost table_ext two_amounts_text no_vlm)
     = Inr (PFloat 1200000) \<and>
   map_sum id confidence (extract_asset_cost table_ext two_amounts_text no_vlm)
     = Inr (85 / 100)"
proof -
  have none: "vlm_asset_cost no_vlm = PNone" by (simp add: no_vlm_def)
  have two: "plausible_costs table_ext two_amounts_text = {350000, 1200000}"
    by (auto simp: plausible_costs_loop two_amounts_loop)
  from extract_asset_cost_maximum [OF none, of table_ext two_amounts_text] two
  obtain p where "extract_asset_cost table_ext two_amounts_text no_vlm =
      Inr \<lparr>fvalue = PFloat 1200000, confidence = 85 / 100,
           explanation = Cost_using_pattern 1200000 p\<rparr>"
    by blast
  with none two show ?thesis by simp
qed

section \<open>Horse power: the first pattern whose first match is plausible\<close>

text \<open>A pattern without a match, or whose first match is out of the band, is passed over:
  the loop goes on with the patterns after it.\<close>

lemma hp_loop_skip:
  assumes "findall_hp ext p t = [] \<or> (\<exists>n. first_match ext t p = Some n \<and> \<not> in_hp_band n)"
  shows "hp_loop ext t (p # rest) = hp_loop ext t rest"
  using assms
  by (cases "findall_hp ext p t") (auto simp: first_match_def in_hp_band_def)

lemma hp_loop_skip_all:
  assumes "\<forall>q \<in> set pre. findall_hp ext q t = [] \<or>
             (\<exists>n. first_match ext t q = Some n \<and> \<not> in_hp_band n)"
  shows "hp_loop ext t (pre @ rest) = hp_loop ext t rest"
  using assms
proof (induction pre)
  case Nil
  show ?case by simp
next
  case (Cons q pre)
  then have "hp_loop ext t (q # (pre @ rest)) = hp_loop ext t (pre @ rest)"
    by (intro hp_loop_skip) simp
  with Cons show ?case by simp
qed

lemma hp_loop_take:
  assumes "findall_hp ext p t \<noteq> []" "first_match ext t p = Some n" "in_hp_band n"
  shows "hp_loop ext t (p # rest) =
           Inr \<lparr>fvalue = PInt n, confidence = 85 / 100, explanation = HP_using_pattern n p\<rparr>"
  using assms
  by (cases "findall_hp ext p t") (auto simp: first_match_def in_hp_band_def)

text \<open>
  C4, as the claim states it, fails. In the transcript \<open>500 HP Power: 45\<close> the first
  pattern that matches is the first of the list; its only match, 500, is out of 20 to 150;
  the loop still goes on to the later patterns, and the last one yields 45.
\<close>

theorem hp_fallback_counterexample:
  "findall_hp table_ext Digits_HP two_powers_text = [''500''] \<and>
   int_of_str table_ext ''500'' = Some 500 \<and>
   \<not> in_hp_band 500 \<and>
   extract_horse_power table_ext two_powers_text no_vlm =
     Inr \<lparr>fvalue = PInt 45, confidence = 85 / 100,
          explanation = HP_using_pattern 45 Power_digits\<rparr>"
  by (simp add: extract_horse_power_def no_vlm_def hp_patterns_def table_ext_def
      two_powers_text_def quotation_text_def ascii_int_def is_digit_def decimal_def
      in_hp_band_def)

text \<open>
  C4, amended. With no horse power from the secondary source, the patterns are tried in
  order and only the first match of a pattern is read. The result is the first match of the
  first pattern whose first match lies in 20 to 150, with confidence 0.85; a pattern that
  does not match, or whose first match is out of the band, is passed over and the later
  patterns are still tried. The value is None when no pattern has a first match in the band.
  (Every first match is taken to be a numeral, as the group of digits makes it.)
\<close>

theorem extract_horse_power_first_plausible:
  assumes "vlm_horse_power vlm = PNone"
      and "first_matches_numeric ext ocr_text"
  shows "((\<forall>p \<in> set hp_patterns. \<forall>n. first_match ext ocr_text p = Some n \<longrightarrow> \<not> in_hp_band n) \<longrightarrow>
            extract_horse_power ext ocr_text vlm =
              Inr \<lparr>fvalue = PNone, confidence = 0, explanation = No_HP_found\<rparr>) \<and>
         (\<forall>pre p post n.
            hp_patterns = pre @ p # post \<and>
            (\<forall>q \<in> set pre. \<forall>k. first_match ext ocr_text q = Some k \<longrightarrow> \<not> in_hp_band k) \<and>
            findall_hp ext p ocr_text \<noteq> [] \<and> first_match ext ocr_text p = Some n \<and>
            in_hp_band n \<longrightarrow>
              extract_horse_power ext ocr_text vlm =
                Inr \<lparr>fvalue = PInt n, confidence = 85 / 100,
                     explanation = HP_using_pattern n p\<rparr>)"
proof -
  have numeric: "findall_hp ext q ocr_text = [] \<or> first_match ext ocr_text q \<noteq> None"
    if "q \<in> set hp_patterns" for q
    using assms(2) that by (simp add: first_matches_numeric_def list_all_iff)
  have skip: "findall_hp ext q ocr_text = [] \<or>
      (\<exists>n. first_match ext ocr_text q = Some n \<and> \<not> in_hp_band n)"
    if "q \<in> set hp_patterns" "\<forall>k. first_match ext ocr_text q = Some k \<longrightarrow> \<not> in_hp_band k" for q
    using numeric [OF that(1)] that(2) by auto
  have text_path: "extract_horse_power ext ocr_text vlm = hp_loop ext ocr_text hp_patterns"
    using assms(1) by (simp add: extract_horse_power_def)
  have none: "extract_horse_power ext ocr_text vlm =
      Inr \<lparr>fvalue = PNone, confidence = 0, explanation = No_HP_found\<rparr>"
    if "\<forall>p \<in> set hp_patterns. \<forall>n. first_match ext ocr_text p = Some n \<longrightarrow> \<not> in_hp_band n"
  proof -
    from that skip have "\<forall>q \<in> set hp_patterns. findall_hp ext q ocr_text = [] \<or>
        (\<exists>n. first_match ext ocr_text q = Some n \<and> \<not> in_hp_band n)" by blast
    from hp_loop_skip_all [OF this, of "[]"] show ?thesis
      unfolding text_path by simp
  qed
  have first: "extract_horse_power ext ocr_text vlm =
      Inr \<lparr>fvalue = PInt n, confidence = 85 / 100, explanation = HP_using_pattern n p\<rparr>"
    if split: "hp_patterns = pre @ p # post"
      and pre: "\<forall>q \<in> set pre. \<forall>k. first_match ext ocr_text q = Some k \<longrightarrow> \<not> in_hp_band k"
      and hit: "findall_hp ext p ocr_text \<noteq> []" "first_match ext ocr_text p = Some n"
        "in_hp_band n"
    for pre p post n
  proof -
    have "set hp_patterns = set (pre @ p # post)" by (simp only: split)
    then have "set pre \<subseteq> set hp_patterns" by auto
    with pre skip have "\<forall>q \<in> set pre. findall_hp ext q ocr_text = [] \<or>
        (\<exists>n. first_match ext ocr_text q = Some n \<and> \<not> in_hp_band n)" by blast
    from hp_loop_skip_all [OF this, of "p # post"]
    have "hp_loop ext ocr_text hp_patterns = hp_loop ext ocr_text (p # post)"
      unfolding split .
    with hp_loop_take [OF hit, of post] show ?thesis
      unfolding text_path by simp
  qed
  from none first show ?thesis by blast
qed


text \<open>In \<open>500 HP Power: 45\<close> the first two patterns read 500, the next two do not match,
  and the last one reads 45.\<close>

lemma two_powers_first:
  "first_match table_ext two_powers_text Digits_HP = Some 500"
  "first_match table_ext two_powers_text Digits_hp = Some 500"
  "first_match table_ext two_powers_text Digits_horse_power = None"
  "first_match table_ext two_powers_text HP_digits = None"
  "first_match table_ext two_powers_text Power_digits = Some 45"
  by (simp_all add: first_match_def table_ext_def two_powers_text_def quotation_text_def
      ascii_int_def is_digit_def decimal_def)

theorem extract_horse_power_first_plausible_witness:
  "vlm_horse_power no_vlm = PNone \<and>
   first_matches_numeric table_ext two_powers_text \<and>
   first_match table_ext two_powers_text Digits_HP = Some 500 \<and>
   extract_horse_power table_ext two_powers_text no_vlm =
     Inr \<lparr>fvalue = PInt 45, confidence = 85 / 100,
          explanation = HP_using_pattern 45 Power_digits\<rparr>"
proof -
  have none: "vlm_horse_power no_vlm = PNone" by (simp add: no_vlm_def)
  have numeric: "first_matches_numeric table_ext two_powers_text"
    by (simp add: first_matches_numeric_def hp_patterns_def two_powers_first)
       (simp add: table_ext_def)
  have split: "hp_patterns =
      [Digits_HP, Digits_hp, Digits_horse_power, HP_digits] @ Power_digits # []"
    by (simp add: hp_patterns_def)
  have pre: "\<forall>q \<in> set [Digits_HP, Digits_hp, Digits_horse_power, HP_digits].
      \<forall>k. first_match table_ext two_powers_text q = Some k \<longrightarrow> \<not> in_hp_band k"
    by (simp add: two_powers_first in_hp_band_def)
  have hit: "findall_hp table_ext Power_digits two_powers_text \<noteq> []" "in_hp_band 45"
    by (simp_all add: table_ext_def in_hp_band_def)
  from extract_horse_power_first_plausible [OF none numeric]
  have "\<forall>pre p post n.
      hp_patterns = pre @ p # post \<and>
      (\<forall>q \<in> set pre. \<forall>k. first_match table_ext two_powers_text q = Some k \<longrightarrow> \<not> in_hp_band k) \<and>
      findall_hp table_ext p two_powers_text \<noteq> [] \<and>
      first_match table_ext two_powers_text p = Some n \<and> in_hp_band n \<longrightarrow>
      extract_horse_power table_ext two_powers_text no_vlm =
        Inr \<lparr>fvalue = PInt n, confidence = 85 / 100, explanation = HP_using_pattern n p\<rparr>"
    by (rule conjunct2)
  from this [rule_format, of "[Digits_HP, Digits_hp, Digits_horse_power, HP_digits]"
      Power_digits "[]" 45] split pre hit two_powers_first(5)
  have "extract_horse_power table_ext two_powers_text no_vlm =
     Inr \<lparr>fvalue = PInt 45, confidence = 85 / 100,
          explanation = HP_using_pattern 45 Power_digits\<rparr>"
    by blast
  with none numeric two_powers_first(1) show ?thesis by blast
qed

section \<open>A malformed number from the secondary source\<close>

text \<open>
  C5. The claim says that no input makes the extractors raise, a malformed numeric string
  from the secondary source included. On the secondary path \<^verbatim>\<open>int(vlm_hp)\<close> and
  \<^verbatim>\<open>float(vlm_cost)\<close> are not guarded: the strings \<open>forty\<close> and \<open>4.5 lakh\<close> raise
  \<^verbatim>\<open>ValueError\<close>, and so does the extraction of all the fields of the document.
\<close>

theorem malformed_secondary_number_raises:
  "extract_horse_power table_ext quotation_text (no_vlm\<lparr>vlm_horse_power := PStr ''forty''\<rparr>)
     = Inl ValueError \<and>
   extract_asset_cost table_ext quotation_text (no_vlm\<lparr>vlm_asset_cost := PStr ''4.5 lakh''\<rparr>)
     = Inl ValueError \<and>
   extract_all_fields abc_extractor table_ext [(''full_text'', PStr quotation_text)]
       (no_vlm\<lparr>vlm_horse_power := PStr ''forty''\<rparr>) []
     = Inl ValueError"
proof -
  have hp: "extract_horse_power table_ext quotation_text
      (no_vlm\<lparr>vlm_horse_power := PStr ''forty''\<rparr>) = Inl ValueError"
    by (simp add: extract_horse_power_def no_vlm_def table_ext_def ascii_int_def is_digit_def)
  have cost: "extract_asset_cost table_ext quotation_text
      (no_vlm\<lparr>vlm_asset_cost := PStr ''4.5 lakh''\<rparr>) = Inl ValueError"
    by (simp add: extract_asset_cost_def no_vlm_def table_ext_def ascii_float_def is_digit_def)
  have "extract_all_fields abc_extractor table_ext [(''full_text'', PStr quotation_text)]
       (no_vlm\<lparr>vlm_horse_power := PStr ''forty''\<rparr>) [] = Inl ValueError"
    by (simp add: extract_all_fields_def dict_get_def hp)
  with hp cost show ?thesis by simp
qed

section \<open>Validator: lemmas on the parts\<close>

lemma py_int_number: "is_number v \<Longrightarrow> py_int ext v = Inr (trunc (num_of v))"
  by (cases v) (simp_all add: trunc_def)

lemma py_float_number: "is_number v \<Longrightarrow> py_float ext v = Inr (num_of v)"
  by (cases v) simp_all

lemma truthy_number: "is_number v \<Longrightarrow> truthy v \<longleftrightarrow> num_of v \<noteq> 0"
  by (cases v) simp_all

lemma validate_hp_range_number:
  "is_number v \<Longrightarrow> validate_hp_range ext v \<longleftrightarrow> 15 \<le> num_of v \<and> num_of v \<le> 200"
  by (simp add: validate_hp_range_def py_float_number)

lemma validate_cost_range_number:
  "is_number v \<Longrightarrow> validate_cost_range ext v \<longleftrightarrow> 200000 \<le> num_of v \<and> num_of v \<le> 2000000"
  by (simp add: validate_cost_range_def py_float_number)

text \<open>Each part leaves the keys of the other parts alone.\<close>

lemma validate_dealer_name_frame:
  "validate_dealer_name self flds v = Inr v' \<Longrightarrow>
   k \<notin> {''dealer_name'', ''dealer_name_confidence'', ''dealer_name_explanation''} \<Longrightarrow>
   v' k = v k"
  by (auto simp: validate_dealer_name_def split: py_value.splits sum.splits if_splits)



lemma validate_asset_cost_frame:
  "validate_asset_cost ext flds v = Inr v' \<Longrightarrow>
   k \<notin> {''asset_cost'', ''asset_cost_confidence'', ''asset_cost_explanation''} \<Longrightarrow>
   v' k = v k"
  by (auto simp: validate_asset_cost_def Let_def split: py_value.splits sum.splits if_splits)

lemma validate_signature_frame:
  "validate_signature ext flds v = Inr v' \<Longrightarrow> k \<noteq> ''dealer_signature'' \<Longrightarrow> v' k = v k"
  by (auto simp: validate_signature_def split: sum.splits)

lemma validate_stamp_frame:
  "validate_stamp ext flds v = Inr v' \<Longrightarrow> k \<noteq> ''dealer_stamp'' \<Longrightarrow> v' k = v k"
  by (auto simp: validate_stamp_def split: sum.splits)

text \<open>A run of \<^verbatim>\<open>validate\<close> that returns went through its six parts.\<close>

lemma validate_parts:
  assumes "validate self ext flds = Inr out"
  obtains v1 v2 v3 v4 v5 where
    "validate_dealer_name self flds Map.empty = Inr v1"
    "validate_model_name self flds v1 = Inr v2"
    "validate_horse_power ext flds v2 = Inr v3"
    "validate_asset_cost ext flds v3 = Inr v4"
    "validate_signature ext flds v4 = Inr v5"
    "validate_stamp ext flds v5 = Inr out"
  using assms unfolding validate_def and_then_def
  by (auto split: sum.splits)



lemma validate_out_horse_power:
  assumes "validate self ext flds = Inr out"
  obtains v2 v3 where "validate_horse_power ext flds v2 = Inr v3"
    and "out ''horse_power'' = v3 ''horse_power''"
    and "out ''horse_power_confidence'' = v3 ''horse_power_confidence''"
    and "out ''horse_power_explanation'' = v3 ''horse_power_explanation''"
proof -
  from assms obtain v1 v2 v3 v4 v5 where
    p3: "validate_horse_power ext flds v2 = Inr v3" and
    p4: "validate_asset_cost ext flds v3 = Inr v4" and
    p5: "validate_signature ext flds v4 = Inr v5" and
    p6: "validate_stamp ext flds v5 = Inr out"
    by (rule validate_parts)
  have "out k = v3 k"
    if "k \<in> {''horse_power'', ''horse_power_confidence'', ''horse_power_explanation''}" for k
  proof -
    have "out k = v5 k" using that by (intro validate_stamp_frame [OF p6]) auto
    also have "\<dots> = v4 k" using that by (intro validate_signature_frame [OF p5]) auto
    also have "\<dots> = v3 k" using that by (intro validate_asset_cost_frame [OF p4]) auto
    finally show ?thesis .
  qed
  with p3 that show ?thesis by simp
qed


lemma validate_out_detections:
  assumes "validate self ext flds = Inr out"
  shows "Inr (the (out ''dealer_signature'')) =
           detection_payload ext (dict_get flds ''dealer_signature'' (PDict []))"
    and "Inr (the (out ''dealer_stamp'')) =
           detection_payload ext (dict_get flds ''dealer_stamp'' (PDict []))"
    and "out ''dealer_signature'' \<noteq> None" and "out ''dealer_stamp'' \<noteq> None"
proof -
  from assms obtain v1 v2 v3 v4 v5 where
    p5: "validate_signature ext flds v4 = Inr v5" and
    p6: "validate_stamp ext flds v5 = Inr out"
    by (rule validate_parts)
  have sig: "out ''dealer_signature'' = v5 ''dealer_signature''"
    by (intro validate_stamp_frame [OF p6]) simp
  from p5 sig show "Inr (the (out ''dealer_signature'')) =
      detection_payload ext (dict_get flds ''dealer_signature'' (PDict []))"
    and "out ''dealer_signature'' \<noteq> None"
    by (auto simp: validate_signature_def split: sum.splits)
  from p6 show "Inr (the (out ''dealer_stamp'')) =
      detection_payload ext (dict_get flds ''dealer_stamp'' (PDict []))"
    and "out ''dealer_stamp'' \<noteq> None"
    by (auto simp: validate_stamp_def split: sum.splits)
qed

text \<open>The horse power part on a record whose value is a number or None.\<close>

lemma validate_horse_power_accept:
  assumes "dict_get flds ''horse_power'' (PDict []) = PDict hp"
    and "is_number (dict_get hp ''value'' PNone)"
    and "15 \<le> num_of (dict_get hp ''value'' PNone)" "num_of (dict_get hp ''value'' PNone) \<le> 200"
  shows "validate_horse_power ext flds v =
     Inr (v(''horse_power'' \<mapsto> PInt (trunc (num_of (dict_get hp ''value'' PNone))),
            ''horse_power_confidence'' \<mapsto> dict_get hp ''confidence'' PNone,
            ''horse_power_explanation'' \<mapsto> dict_get hp ''explanation'' PNone))"
proof -
  have "truthy (dict_get hp ''value'' PNone)"
    using assms(2,3) by (simp add: truthy_number)
  moreover have "validate_hp_range ext (dict_get hp ''value'' PNone)"
    using assms(2-4) by (simp add: validate_hp_range_number)
  ultimately show ?thesis
    using assms(1,2) by (simp add: validate_horse_power_def py_int_number)
qed

lemma validate_horse_power_reject:
  assumes "dict_get flds ''horse_power'' (PDict []) = PDict hp"
    and "is_number (dict_get hp ''value'' PNone) \<or> dict_get hp ''value'' PNone = PNone"
    and "\<not> (is_number (dict_get hp ''value'' PNone) \<and>
            15 \<le> num_of (dict_get hp ''value'' PNone) \<and>
            num_of (dict_get hp ''value'' PNone) \<le> 200)"
  shows "validate_horse_power ext flds v =
     Inr (v(''horse_power'' \<mapsto> PNone,
            ''horse_power_confidence'' \<mapsto> dict_get hp ''confidence'' (PFloat 0),
            ''horse_power_explanation'' \<mapsto>
               dict_get hp ''explanation'' (PStr ''Invalid range or not found'')))"
proof -
  have neg: "(truthy (dict_get hp ''value'' PNone) \<and>
           validate_hp_range ext (dict_get hp ''value'' PNone)) = False"
    using assms(2,3) by (auto simp: validate_hp_range_number)
  show ?thesis
    by (simp only: validate_horse_power_def assms(1) Let_def neg py_value.case if_False)
qed

text \<open>What the text path of the horse power extractor can return.\<close>

lemma hp_loop_value:
  "hp_loop ext t ps = Inr r \<Longrightarrow>
   (fvalue r = PNone \<and> confidence r = 0) \<or> (\<exists>n. fvalue r = PInt n \<and> 20 \<le> n \<and> n \<le> 150)"
proof (induction ps)
  case Nil
  then show ?case by auto
next
  case (Cons p ps)
  then show ?case
    by (auto split: list.splits option.splits if_splits)
qed

lemma trunc_of_int: "trunc (real_of_int n) = n"
  by (simp add: trunc_def)

lemma trunc_band: "150 \<le> x \<Longrightarrow> x \<le> 200 \<Longrightarrow> 150 \<le> trunc x \<and> trunc x \<le> 200"
  by (simp add: trunc_def le_floor_iff floor_le_iff)

section \<open>Results of a run\<close>

lemma Inr_projr: "(case r of Inl e \<Rightarrow> False | Inr x \<Rightarrow> True) \<Longrightarrow> r = Inr (projr r)"
  by (cases r) simp_all

lemma validated_key_Inr: "r = Inr out \<Longrightarrow> validated_key k r = Inr (out k)"
  by (simp add: validated_key_def)

section \<open>Validator: bounding boxes\<close>

lemma validate_bbox_accept:
  assumes "is_number x" "is_number y" "is_number w" "is_number h"
    and "0 \<le> num_of x" "0 \<le> num_of y" "0 < num_of w" "0 < num_of h"
  shows "validate_bbox ext (PList [x, y, w, h]) =
           PList [PInt (trunc (num_of x)), PInt (trunc (num_of y)),
                  PInt (trunc (num_of w)), PInt (trunc (num_of h))]"
  using assms by (simp add: validate_bbox_def bbox_try_def py_int_number)

lemma bbox_try_None:
  "\<not> (is_number x \<and> is_number y \<and> is_number w \<and> is_number h \<and>
      0 \<le> num_of x \<and> 0 \<le> num_of y \<and> 0 < num_of w \<and> 0 < num_of h) \<Longrightarrow>
   bbox_try ext x y w h = Inr None"
  by (auto simp: bbox_try_def)

lemma validate_bbox_reject:
  assumes "\<not> (\<exists>x y w h. bbox = PList [x, y, w, h] \<and>
              is_number x \<and> is_number y \<and> is_number w \<and> is_number h \<and>
              0 \<le> num_of x \<and> 0 \<le> num_of y \<and> 0 < num_of w \<and> 0 < num_of h)"
  shows "validate_bbox ext bbox = PNone"
proof (cases "\<exists>x y w h. bbox = PList [x, y, w, h]")
  case True
  then obtain x y w h where b: "bbox = PList [x, y, w, h]" by blast
  with assms have "bbox_try ext x y w h = Inr None" by (intro bbox_try_None) blast
  with b show ?thesis by (simp add: validate_bbox_def)
next
  case False
  then show ?thesis
    by (auto simp: validate_bbox_def split: py_value.splits list.splits)
qed

lemma detection_payload_dict:
  "detection_payload ext (PDict d) =
     Inr (PDict [(''present'', dict_get d ''present'' (PBool False)),
                 (''bbox'', validate_bbox ext (dict_get d ''bbox'' PNone)),
                 (''confidence'', dict_get d ''confidence'' (PFloat 0))])"
  by (simp add: detection_payload_def)

text \<open>
  C7. \<^verbatim>\<open>_validate_bbox\<close> returns the box with its four entries coerced to integers
  exactly when the input is a list of four numbers with x and y at least 0 and w and h above
  0; every other input gives None. The present flag plays no part: the box
  \<open>[10, 10, 0, 5]\<close> gives None under any flag, and a run of \<^verbatim>\<open>validate\<close> that returns
  stores for the signature and the stamp the flag as it came beside the normalised box, so
  present True with box None is a possible output.
\<close>

theorem validate_bbox_normalizes:
  "(\<forall>x y w h. bbox = PList [x, y, w, h] \<and>
       is_number x \<and> is_number y \<and> is_number w \<and> is_number h \<and>
       0 \<le> num_of x \<and> 0 \<le> num_of y \<and> 0 < num_of w \<and> 0 < num_of h \<longrightarrow>
       validate_bbox ext bbox =
         PList [PInt (trunc (num_of x)), PInt (trunc (num_of y)),
                PInt (trunc (num_of w)), PInt (trunc (num_of h))]) \<and>
   (\<not> (\<exists>x y w h. bbox = PList [x, y, w, h] \<and>
       is_number x \<and> is_number y \<and> is_number w \<and> is_number h \<and>
       0 \<le> num_of x \<and> 0 \<le> num_of y \<and> 0 < num_of w \<and> 0 < num_of h) \<longrightarrow>
       validate_bbox ext bbox = PNone) \<and>
   detection_payload ext
       (PDict [(''present'', present), (''bbox'', PList [PInt 10, PInt 10, PInt 0, PInt 5]),
               (''confidence'', conf)]) =
     Inr (PDict [(''present'', present), (''bbox'', PNone), (''confidence'', conf)]) \<and>
   (\<forall>sig. validate self ext flds = Inr out \<and>
       dict_get flds ''dealer_signature'' (PDict []) = PDict sig \<longrightarrow>
       out ''dealer_signature'' =
         Some (PDict [(''present'', dict_get sig ''present'' (PBool False)),
                      (''bbox'', validate_bbox ext (dict_get sig ''bbox'' PNone)),
                      (''confidence'', dict_get sig ''confidence'' (PFloat 0))])) \<and>
   (\<forall>stamp. validate self ext flds = Inr out \<and>
       dict_get flds ''dealer_stamp'' (PDict []) = PDict stamp \<longrightarrow>
       out ''dealer_stamp'' =
         Some (PDict [(''present'', dict_get stamp ''present'' (PBool False)),
                      (''bbox'', validate_bbox ext (dict_get stamp ''bbox'' PNone)),
                      (''confidence'', dict_get stamp ''confidence'' (PFloat 0))]))"
proof (intro conjI allI impI)
  fix x y w h
  assume "bbox = PList [x, y, w, h] \<and>
       is_number x \<and> is_number y \<and> is_number w \<and> is_number h \<and>
       0 \<le> num_of x \<and> 0 \<le> num_of y \<and> 0 < num_of w \<and> 0 < num_of h"
  then show "validate_bbox ext bbox =
         PList [PInt (trunc (num_of x)), PInt (trunc (num_of y)),
                PInt (trunc (num_of w)), PInt (trunc (num_of h))]"
    by (simp add: validate_bbox_accept)
next
  assume "\<not> (\<exists>x y w h. bbox = PList [x, y, w, h] \<and>
       is_number x \<and> is_number y \<and> is_number w \<and> is_number h \<and>
       0 \<le> num_of x \<and> 0 \<le> num_of y \<and> 0 < num_of w \<and> 0 < num_of h)"
  then show "validate_bbox ext bbox = PNone" by (rule validate_bbox_reject)
next
  have "validate_bbox ext (PList [PInt 10, PInt 10, PInt 0, PInt 5]) = PNone"
    by (rule validate_bbox_reject) simp
  then show "detection_payload ext
       (PDict [(''present'', present), (''bbox'', PList [PInt 10, PInt 10, PInt 0, PInt 5]),
               (''confidence'', conf)]) =
     Inr (PDict [(''present'', present), (''bbox'', PNone), (''confidence'', conf)])"
    by (simp add: detection_payload_dict dict_get_def)
next
  fix sig
  assume a: "validate self ext flds = Inr out \<and>
       dict_get flds ''dealer_signature'' (PDict []) = PDict sig"
  then have "validate self ext flds = Inr out" by simp
  from validate_out_detections(1,3) [OF this] a
  show "out ''dealer_signature'' =
         Some (PDict [(''present'', dict_get sig ''present'' (PBool False)),
                      (''bbox'', validate_bbox ext (dict_get sig ''bbox'' PNone)),
                      (''confidence'', dict_get sig ''confidence'' (PFloat 0))])"
    by (auto simp: detection_payload_dict)
next
  fix stamp
  assume a: "validate self ext flds = Inr out \<and>
       dict_get flds ''dealer_stamp'' (PDict []) = PDict stamp"
  then have "validate self ext flds = Inr out" by simp
  from validate_out_detections(2,4) [OF this] a
  show "out ''dealer_stamp'' =
         Some (PDict [(''present'', dict_get stamp ''present'' (PBool False)),
                      (''bbox'', validate_bbox ext (dict_get stamp ''bbox'' PNone)),
                      (''confidence'', dict_get stamp ''confidence'' (PFloat 0))])"
    by (auto simp: detection_payload_dict)
qed

section \<open>Validator: when a run returns\<close>

lemma validate_asset_cost_accept:
  assumes "dict_get flds ''asset_cost'' (PDict []) = PDict cost"
    and "is_number (dict_get cost ''value'' PNone)"
    and "200000 \<le> num_of (dict_get cost ''value'' PNone)"
        "num_of (dict_get cost ''value'' PNone) \<le> 2000000"
  shows "validate_asset_cost ext flds v =
     Inr (v(''asset_cost'' \<mapsto> PFloat (num_of (dict_get cost ''value'' PNone)),
            ''asset_cost_confidence'' \<mapsto> dict_get cost ''confidence'' PNone,
            ''asset_cost_explanation'' \<mapsto> dict_get cost ''explanation'' PNone))"
proof -
  have "truthy (dict_get cost ''value'' PNone)"
    using assms(2,3) by (simp add: truthy_number)
  moreover have "validate_cost_range ext (dict_get cost ''value'' PNone)"
    using assms(2-4) by (simp add: validate_cost_range_number)
  ultimately show ?thesis
    using assms(1,2) by (simp add: validate_asset_cost_def py_float_number)
qed

lemma validate_asset_cost_reject:
  assumes "dict_get flds ''asset_cost'' (PDict []) = PDict cost"
    and "is_number (dict_get cost ''value'' PNone) \<or> dict_get cost ''value'' PNone = PNone"
    and "\<not> (is_number (dict_get cost ''value'' PNone) \<and>
            200000 \<le> num_of (dict_get cost ''value'' PNone) \<and>
            num_of (dict_get cost ''value'' PNone) \<le> 2000000)"
  shows "validate_asset_cost ext flds v =
     Inr (v(''asset_cost'' \<mapsto> PNone,
            ''asset_cost_confidence'' \<mapsto> dict_get cost ''confidence'' (PFloat 0),
            ''asset_cost_explanation'' \<mapsto>
               dict_get cost ''explanation'' (PStr ''Invalid range or not found'')))"
proof -
  have neg: "(truthy (dict_get cost ''value'' PNone) \<and>
           validate_cost_range ext (dict_get cost ''value'' PNone)) = False"
    using assms(2,3) by (auto simp: validate_cost_range_number)
  show ?thesis
    by (simp only: validate_asset_cost_def assms(1) Let_def neg py_value.case if_False)
qed

text \<open>The name parts on a record.\<close>

lemma validate_dealer_name_dict:
  assumes "dict_get flds ''dealer_name'' (PDict []) = PDict dealer"
    and "is_number (dict_get dealer ''confidence'' (PInt 0))"
  shows "validate_dealer_name self flds v =
     Inr (if min_confidence self \<le> num_of (dict_get dealer ''confidence'' (PInt 0))
          then v(''dealer_name'' \<mapsto> dict_get dealer ''value'' PNone,
                 ''dealer_name_confidence'' \<mapsto> dict_get dealer ''confidence'' PNone,
                 ''dealer_name_explanation'' \<mapsto> dict_get dealer ''explanation'' PNone)
          else v(''dealer_name'' \<mapsto> PNone,
                 ''dealer_name_confidence'' \<mapsto> dict_get dealer ''confidence'' (PFloat 0),
                 ''dealer_name_explanation'' \<mapsto>
                    dict_get dealer ''explanation'' (PStr ''Low confidence'')))"
  using assms by (simp add: validate_dealer_name_def py_ge_def)

lemma validate_model_name_dict:
  assumes "dict_get flds ''model_name'' (PDict []) = PDict model"
    and "is_number (dict_get model ''confidence'' (PInt 0))"
  shows "validate_model_name self flds v =
     Inr (if min_confidence self \<le> num_of (dict_get model ''confidence'' (PInt 0))
          then v(''model_name'' \<mapsto> dict_get model ''value'' PNone,
                 ''model_name_confidence'' \<mapsto> dict_get model ''confidence'' PNone,
                 ''model_name_explanation'' \<mapsto> dict_get model ''explanation'' PNone)
          else v(''model_name'' \<mapsto> PNone,
                 ''model_name_confidence'' \<mapsto> dict_get model ''confidence'' (PFloat 0),
                 ''model_name_explanation'' \<mapsto>
                    dict_get model ''explanation'' (PStr ''Low confidence'')))"
  using assms by (simp add: validate_model_name_def py_ge_def)

lemma validate_returns:
  assumes "well_formed flds"
  shows "validate self ext flds = Inr (projr (validate self ext flds))"
proof -
  from assms obtain dealer model hp cost sig stamp where
    d: "dict_get flds ''dealer_name'' (PDict []) = PDict dealer"
       "is_number (dict_get dealer ''confidence'' (PInt 0))" and
    m: "dict_get flds ''model_name'' (PDict []) = PDict model"
       "is_number (dict_get model ''confidence'' (PInt 0))" and
    h: "dict_get flds ''horse_power'' (PDict []) = PDict hp"
       "is_number (dict_get hp ''value'' PNone) \<or> dict_get hp ''value'' PNone = PNone" and
    c: "dict_get flds ''asset_cost'' (PDict []) = PDict cost"
       "is_number (dict_get cost ''value'' PNone) \<or> dict_get cost ''value'' PNone = PNone" and
    s: "dict_get flds ''dealer_signature'' (PDict []) = PDict sig" and
    t: "dict_get flds ''dealer_stamp'' (PDict []) = PDict stamp"
    unfolding well_formed_def by blast
  obtain v1 where 1: "validate_dealer_name self flds Map.empty = Inr v1"
    using validate_dealer_name_dict [OF d] by blast
  obtain v2 where 2: "validate_model_name self flds v1 = Inr v2"
    using validate_model_name_dict [OF m] by blast
  obtain v3 where 3: "validate_horse_power ext flds v2 = Inr v3"
    using validate_horse_power_accept [OF h(1)] validate_horse_power_reject [OF h] by blast
  obtain v4 where 4: "validate_asset_cost ext flds v3 = Inr v4"
    using validate_asset_cost_accept [OF c(1)] validate_asset_cost_reject [OF c] by blast
  obtain v5 where 5: "validate_signature ext flds v4 = Inr v5"
    by (simp add: validate_signature_def s detection_payload_dict)
  obtain v6 where 6: "validate_stamp ext flds v5 = Inr v6"
    by (simp add: validate_stamp_def t detection_payload_dict)
  from 1 2 3 4 5 6 have "validate self ext flds = Inr v6"
    by (simp add: validate_def and_then_def)
  then show ?thesis by simp
qed

lemma sample_documents_well_formed:
  "well_formed zero_width_fields" "well_formed stale_box_fields"
  "well_formed nothing_detected_fields" "well_formed low_confidence_fields"
  by (simp_all add: well_formed_def dict_get_def zero_width_fields_def stale_box_fields_def
      nothing_detected_fields_def low_confidence_fields_def)

text \<open>A signature reported present with the box \<open>[10, 10, 0, 5]\<close> comes out present with
  no box; the stamp's box \<open>[10.5, 20, 30, 40]\<close> comes out as integers.\<close>

theorem validate_bbox_normalizes_witness:
  "validated_key ''dealer_signature'' (validate Validator table_ext zero_width_fields) =
     Inr (Some (PDict [(''present'', PBool True), (''bbox'', PNone),
                       (''confidence'', PFloat (8 / 10))])) \<and>
   validated_key ''dealer_stamp'' (validate Validator table_ext zero_width_fields) =
     Inr (Some (PDict [(''present'', PBool True),
                       (''bbox'', PList [PInt 10, PInt 20, PInt 30, PInt 40]),
                       (''confidence'', PFloat (6 / 10))]))"
proof -
  let ?run = "validate Validator table_ext zero_width_fields"
  let ?sig = "[(''present'', PBool True), (''bbox'', PList [PInt 10, PInt 10, PInt 0, PInt 5]),
               (''confidence'', PFloat (8 / 10))]"
  let ?stamp = "[(''present'', PBool True),
                 (''bbox'', PList [PFloat (21 / 2), PInt 20, PInt 30, PInt 40]),
                 (''confidence'', PFloat (6 / 10))]"
  have ret: "?run = Inr (projr ?run)"
    by (rule validate_returns) (rule sample_documents_well_formed)
  have sig: "dict_get zero_width_fields ''dealer_signature'' (PDict []) = PDict ?sig"
    and stamp: "dict_get zero_width_fields ''dealer_stamp'' (PDict []) = PDict ?stamp"
    by (simp_all add: zero_width_fields_def dict_get_def)
  note box = validate_bbox_normalizes [where ext = table_ext and self = Validator
      and flds = zero_width_fields and out = "projr ?run"]
  have zero: "validate_bbox table_ext (PList [PInt 10, PInt 10, PInt 0, PInt 5]) = PNone"
    using box [where bbox = "PList [PInt 10, PInt 10, PInt 0, PInt 5]",
        THEN conjunct2, THEN conjunct1]
    by simp
  have good: "validate_bbox table_ext (PList [PFloat (21 / 2), PInt 20, PInt 30, PInt 40]) =
      PList [PInt 10, PInt 20, PInt 30, PInt 40]"
    using box [where bbox = "PList [PFloat (21 / 2), PInt 20, PInt 30, PInt 40]",
        THEN conjunct1, rule_format, of "PFloat (21 / 2)" "PInt 20" "PInt 30" "PInt 40"]
    by (simp add: trunc_def)
  have a: "projr ?run ''dealer_signature'' =
      Some (PDict [(''present'', PBool True), (''bbox'', PNone),
                   (''confidence'', PFloat (8 / 10))])"
    using box [where bbox = PNone, THEN conjunct2, THEN conjunct2, THEN conjunct2,
        THEN conjunct1, rule_format, of ?sig] ret sig zero
    by (simp add: dict_get_def)
  have b: "projr ?run ''dealer_stamp'' =
      Some (PDict [(''present'', PBool True),
                   (''bbox'', PList [PInt 10, PInt 20, PInt 30, PInt 40]),
                   (''confidence'', PFloat (6 / 10))])"
    using box [where bbox = PNone, THEN conjunct2, THEN conjunct2, THEN conjunct2,
        THEN conjunct2, rule_format, of ?stamp] ret stamp good
    by (simp add: dict_get_def)
  from a b show ?thesis
    by (simp only: validated_key_Inr [OF ret])
qed

section \<open>Validator: the present flag and the box\<close>

text \<open>
  C8, as the claim states it, fails: a signature payload with present False that carries
  the box \<open>[1, 2, 3, 4]\<close> comes out with present False and the same box.
\<close>

theorem stale_box_counterexample:
  "validated_key ''dealer_signature'' (validate Validator table_ext stale_box_fields) =
     Inr (Some (PDict [(''present'', PBool False),
                       (''bbox'', PList [PInt 1, PInt 2, PInt 3, PInt 4]),
                       (''confidence'', PFloat 0)]))"
proof -
  let ?run = "validate Validator table_ext stale_box_fields"
  have ret: "?run = Inr (projr ?run)"
    by (rule validate_returns) (rule sample_documents_well_formed)
  have box: "validate_bbox table_ext (PList [PInt 1, PInt 2, PInt 3, PInt 4]) =
      PList [PInt 1, PInt 2, PInt 3, PInt 4]"
    using validate_bbox_accept [of "PInt 1" "PInt 2" "PInt 3" "PInt 4" table_ext]
    by (simp add: trunc_def)
  from validate_out_detections(1,3) [OF ret]
  have "projr ?run ''dealer_signature'' =
      Some (PDict [(''present'', PBool False),
                   (''bbox'', PList [PInt 1, PInt 2, PInt 3, PInt 4]),
                   (''confidence'', PFloat 0)])"
    by (auto simp: stale_box_fields_def dict_get_def detection_payload_dict box)
  then show ?thesis by (simp only: validated_key_Inr [OF ret])
qed

text \<open>
  C8, amended. In a run of \<^verbatim>\<open>validate\<close> that returns, a signature or stamp payload whose
  box is None or absent (as the detector reports it when present is false) comes out with
  box None and with its present flag unchanged (False when it has none). The validated box
  depends on the box of the input alone; the validator does not clear a box because the
  flag is false.
\<close>

theorem detection_without_box_stays_without_box:
  assumes "validate self ext flds = Inr out"
  shows "(\<forall>sig. dict_get flds ''dealer_signature'' (PDict []) = PDict sig \<and>
            dict_get sig ''bbox'' PNone = PNone \<longrightarrow>
            out ''dealer_signature'' =
              Some (PDict [(''present'', dict_get sig ''present'' (PBool False)),
                           (''bbox'', PNone),
                           (''confidence'', dict_get sig ''confidence'' (PFloat 0))])) \<and>
         (\<forall>stamp. dict_get flds ''dealer_stamp'' (PDict []) = PDict stamp \<and>
            dict_get stamp ''bbox'' PNone = PNone \<longrightarrow>
            out ''dealer_stamp'' =
              Some (PDict [(''present'', dict_get stamp ''present'' (PBool False)),
                           (''bbox'', PNone),
                           (''confidence'', dict_get stamp ''confidence'' (PFloat 0))]))"
proof -
  have none: "validate_bbox ext PNone = PNone" by (simp add: validate_bbox_def)
  from validate_out_detections [OF assms] none show ?thesis
    by (auto simp: detection_payload_dict)
qed

theorem detection_without_box_stays_without_box_witness:
  "validated_key ''dealer_signature'' (validate Validator table_ext nothing_detected_fields) =
     Inr (Some (PDict [(''present'', PBool False), (''bbox'', PNone),
                       (''confidence'', PFloat 0)])) \<and>
   validated_key ''dealer_stamp'' (validate Validator table_ext nothing_detected_fields) =
     Inr (Some (PDict [(''present'', PBool False), (''bbox'', PNone),
                       (''confidence'', PFloat 0)]))"
proof -
  let ?run = "validate Validator table_ext nothing_detected_fields"
  let ?d = "[(''present'', PBool False), (''bbox'', PNone), (''confidence'', PFloat 0)]"
  have ret: "?run = Inr (projr ?run)"
    by (rule validate_returns) (rule sample_documents_well_formed)
  have look: "dict_get nothing_detected_fields ''dealer_signature'' (PDict []) = PDict ?d"
    "dict_get nothing_detected_fields ''dealer_stamp'' (PDict []) = PDict ?d"
    "dict_get ?d ''bbox'' PNone = PNone"
    by (simp_all add: nothing_detected_fields_def dict_get_def)
  note kept = detection_without_box_stays_without_box [OF ret]
  from kept [THEN conjunct1, rule_format, of ?d] kept [THEN conjunct2, rule_format, of ?d] look
  have "projr ?run ''dealer_signature'' = Some (PDict ?d) \<and>
        projr ?run ''dealer_stamp'' = Some (PDict ?d)"
    by (simp add: dict_get_def)
  then show ?thesis by (simp only: validated_key_Inr [OF ret])
qed

section \<open>Validator: the confidence gate\<close>




section \<open>Validator: the horse power gate\<close>

lemma hp_acceptable_code:
  "hp_acceptable ext v \<longleftrightarrow> truthy v \<and> validate_hp_range ext v"
  by (auto simp: hp_acceptable_def validate_hp_range_def split: sum.splits)

lemma hp_acceptable_number:
  "is_number v \<Longrightarrow> hp_acceptable ext v \<longleftrightarrow> 15 \<le> num_of v \<and> num_of v \<le> 200"
  by (auto simp: hp_acceptable_code validate_hp_range_number truthy_number)

text \<open>The horse power part on a record, whatever its value is.\<close>

lemma validate_horse_power_dict:
  assumes "dict_get flds ''horse_power'' (PDict []) = PDict hp"
    and "validate_horse_power ext flds v = Inr v'"
  shows "if hp_acceptable ext (dict_get hp ''value'' PNone)
         then \<exists>n. py_int ext (dict_get hp ''value'' PNone) = Inr n \<and>
                v' = v(''horse_power'' \<mapsto> PInt n,
                       ''horse_power_confidence'' \<mapsto> dict_get hp ''confidence'' PNone,
                       ''horse_power_explanation'' \<mapsto> dict_get hp ''explanation'' PNone)
         else v' = v(''horse_power'' \<mapsto> PNone,
                     ''horse_power_confidence'' \<mapsto> dict_get hp ''confidence'' (PFloat 0),
                     ''horse_power_explanation'' \<mapsto>
                        dict_get hp ''explanation'' (PStr ''Invalid range or not found''))"
  using assms
  by (auto simp: validate_horse_power_def Let_def hp_acceptable_code split: sum.splits)

text \<open>The horse power part on a bare value.\<close>

lemma validate_horse_power_bare:
  assumes "\<forall>hp. dict_get flds ''horse_power'' (PDict []) \<noteq> PDict hp"
    and "validate_horse_power ext flds v = Inr v'"
  shows "if hp_acceptable ext (dict_get flds ''horse_power'' (PDict []))
         then \<exists>n. py_int ext (dict_get flds ''horse_power'' (PDict [])) = Inr n \<and>
                v' = v(''horse_power'' \<mapsto> PInt n,
                       ''horse_power_confidence'' \<mapsto> PFloat (7 / 10),
                       ''horse_power_explanation'' \<mapsto> PStr ''Direct extraction'')
         else v' = v(''horse_power'' \<mapsto> PNone,
                     ''horse_power_confidence'' \<mapsto> PFloat 0,
                     ''horse_power_explanation'' \<mapsto> PStr ''Invalid or not found'')"
proof -
  have "validate_horse_power ext flds v =
      (if truthy (dict_get flds ''horse_power'' (PDict [])) \<and>
          validate_hp_range ext (dict_get flds ''horse_power'' (PDict []))
       then (case py_int ext (dict_get flds ''horse_power'' (PDict [])) of
               Inl e \<Rightarrow> Inl e
             | Inr n \<Rightarrow> Inr (v(''horse_power'' \<mapsto> PInt n,
                               ''horse_power_confidence'' \<mapsto> PFloat (7 / 10),
                               ''horse_power_explanation'' \<mapsto> PStr ''Direct extraction'')))
       else Inr (v(''horse_power'' \<mapsto> PNone,
                   ''horse_power_confidence'' \<mapsto> PFloat 0,
                   ''horse_power_explanation'' \<mapsto> PStr ''Invalid or not found'')))"
  proof (cases "dict_get flds ''horse_power'' (PDict [])")
    case (PDict d)
    with assms(1) show ?thesis by simp
  qed (simp_all only: validate_horse_power_def py_value.case)
  with assms(2) show ?thesis
    by (auto simp: hp_acceptable_code split: sum.splits if_splits)
qed

text \<open>
  C6. In a run of \<^verbatim>\<open>validate\<close> that returns, the horse power is accepted exactly when
  its value is numeric and in 15 to 200 (for a number: exactly when it lies in 15 to 200),
  and is then stored as an integer. A record that is refused comes out with value None and
  keeps its confidence and explanation (0.0 and a fixed text when it has none); a bare
  value is given 0.7 or 0.0. So an integer in 20 to 150 is stored unchanged, a number in 150
  to 200 is stored as well, every result of the extractor's text path comes out with the
  same value and confidence, and a number in 150 to 200 from the secondary source comes out
  as the integer the extractor made of it.
\<close>

theorem validate_horse_power_gate:
  assumes "validate self ext flds = Inr out"
  shows "let payload = dict_get flds ''horse_power'' (PDict [])
         in (\<forall>v. is_number v \<longrightarrow> (hp_acceptable ext v \<longleftrightarrow> 15 \<le> num_of v \<and> num_of v \<le> 200)) \<and>
            (\<forall>hp v. payload = PDict hp \<and> v = dict_get hp ''value'' PNone \<and> hp_acceptable ext v \<longrightarrow>
               (\<exists>n. py_int ext v = Inr n \<and> out ''horse_power'' = Some (PInt n)) \<and>
               out ''horse_power_confidence'' = Some (dict_get hp ''confidence'' PNone) \<and>
               out ''horse_power_explanation'' = Some (dict_get hp ''explanation'' PNone)) \<and>
            (\<forall>hp v. payload = PDict hp \<and> v = dict_get hp ''value'' PNone \<and> \<not> hp_acceptable ext v \<longrightarrow>
               out ''horse_power'' = Some PNone \<and>
               out ''horse_power_confidence'' = Some (dict_get hp ''confidence'' (PFloat 0)) \<and>
               out ''horse_power_explanation'' =
                 Some (dict_get hp ''explanation'' (PStr ''Invalid range or not found''))) \<and>
            ((\<forall>hp. payload \<noteq> PDict hp) \<and> hp_acceptable ext payload \<longrightarrow>
               (\<exists>n. py_int ext payload = Inr n \<and> out ''horse_power'' = Some (PInt n)) \<and>
               out ''horse_power_confidence'' = Some (PFloat (7 / 10))) \<and>
            ((\<forall>hp. payload \<noteq> PDict hp) \<and> \<not> hp_acceptable ext payload \<longrightarrow>
               out ''horse_power'' = Some PNone \<and>
               out ''horse_power_confidence'' = Some (PFloat 0)) \<and>
            (\<forall>hp n. payload = PDict hp \<and> dict_get hp ''value'' PNone = PInt n \<and>
               20 \<le> n \<and> n \<le> 150 \<longrightarrow> out ''horse_power'' = Some (PInt n)) \<and>
            (\<forall>hp v. payload = PDict hp \<and> v = dict_get hp ''value'' PNone \<and> is_number v \<and>
               150 \<le> num_of v \<and> num_of v \<le> 200 \<longrightarrow>
               out ''horse_power'' = Some (PInt (trunc (num_of v))) \<and>
               150 \<le> trunc (num_of v) \<and> trunc (num_of v) \<le> 200) \<and>
            (\<forall>t vlm r. vlm_horse_power vlm = PNone \<and> extract_horse_power ext t vlm = Inr r \<and>
               payload = result_dict ext r \<longrightarrow>
                 out ''horse_power'' = Some (fvalue r) \<and>
                 out ''horse_power_confidence'' = Some (PFloat (confidence r))) \<and>
            (\<forall>t vlm r. is_number (vlm_horse_power vlm) \<and> 150 \<le> num_of (vlm_horse_power vlm) \<and>
               num_of (vlm_horse_power vlm) \<le> 200 \<and> extract_horse_power ext t vlm = Inr r \<and>
               payload = result_dict ext r \<longrightarrow>
                 fvalue r = PInt (trunc (num_of (vlm_horse_power vlm))) \<and>
                 out ''horse_power'' = Some (fvalue r))"
proof -
  define payload where "payload = dict_get flds ''horse_power'' (PDict [])"
  from assms obtain v2 v3 where
    part: "validate_horse_power ext flds v2 = Inr v3" and
    keys: "out ''horse_power'' = v3 ''horse_power''"
      "out ''horse_power_confidence'' = v3 ''horse_power_confidence''"
      "out ''horse_power_explanation'' = v3 ''horse_power_explanation''"
    by (rule validate_out_horse_power)
  have numbers: "hp_acceptable ext v \<longleftrightarrow> 15 \<le> num_of v \<and> num_of v \<le> 200" if "is_number v" for v
    using that by (rule hp_acceptable_number)
  have accept: "(\<exists>n. py_int ext v = Inr n \<and> out ''horse_power'' = Some (PInt n)) \<and>
      out ''horse_power_confidence'' = Some (dict_get hp ''confidence'' PNone) \<and>
      out ''horse_power_explanation'' = Some (dict_get hp ''explanation'' PNone)"
    if "payload = PDict hp" "v = dict_get hp ''value'' PNone" "hp_acceptable ext v" for hp v
  proof -
    from validate_horse_power_dict [OF that(1) [unfolded payload_def] part] that(2,3)
    obtain n where "py_int ext v = Inr n"
      "v3 = v2(''horse_power'' \<mapsto> PInt n,
               ''horse_power_confidence'' \<mapsto> dict_get hp ''confidence'' PNone,
               ''horse_power_explanation'' \<mapsto> dict_get hp ''explanation'' PNone)"
      by auto
    with keys show ?thesis by simp
  qed
  have reject: "out ''horse_power'' = Some PNone \<and>
      out ''horse_power_confidence'' = Some (dict_get hp ''confidence'' (PFloat 0)) \<and>
      out ''horse_power_explanation'' =
        Some (dict_get hp ''explanation'' (PStr ''Invalid range or not found''))"
    if "payload = PDict hp" "v = dict_get hp ''value'' PNone" "\<not> hp_acceptable ext v" for hp v
  proof -
    from validate_horse_power_dict [OF that(1) [unfolded payload_def] part] that(2,3)
    have "v3 = v2(''horse_power'' \<mapsto> PNone,
               ''horse_power_confidence'' \<mapsto> dict_get hp ''confidence'' (PFloat 0),
               ''horse_power_explanation'' \<mapsto>
                  dict_get hp ''explanation'' (PStr ''Invalid range or not found''))"
      by auto
    with keys show ?thesis by simp
  qed
  have bare_accept: "(\<exists>n. py_int ext payload = Inr n \<and> out ''horse_power'' = Some (PInt n)) \<and>
      out ''horse_power_confidence'' = Some (PFloat (7 / 10))"
    if "\<forall>hp. payload \<noteq> PDict hp" "hp_acceptable ext payload"
  proof -
    from validate_horse_power_bare [OF that(1) [unfolded payload_def] part] that(2)
    obtain n where "py_int ext payload = Inr n"
      "v3 = v2(''horse_power'' \<mapsto> PInt n,
               ''horse_power_confidence'' \<mapsto> PFloat (7 / 10),
               ''horse_power_explanation'' \<mapsto> PStr ''Direct extraction'')"
      by (auto simp: payload_def)
    with keys show ?thesis by simp
  qed
  have bare_reject: "out ''horse_power'' = Some PNone \<and>
      out ''horse_power_confidence'' = Some (PFloat 0)"
    if "\<forall>hp. payload \<noteq> PDict hp" "\<not> hp_acceptable ext payload"
  proof -
    from validate_horse_power_bare [OF that(1) [unfolded payload_def] part] that(2)
    have "v3 = v2(''horse_power'' \<mapsto> PNone,
               ''horse_power_confidence'' \<mapsto> PFloat 0,
               ''horse_power_explanation'' \<mapsto> PStr ''Invalid or not found'')"
      by (auto simp: payload_def)
    with keys show ?thesis by simp
  qed
  have number: "out ''horse_power'' = Some (PInt (trunc (num_of v))) \<and>
      out ''horse_power_confidence'' = Some (dict_get hp ''confidence'' PNone)"
    if "payload = PDict hp" "v = dict_get hp ''value'' PNone" "is_number v"
      "15 \<le> num_of v" "num_of v \<le> 200" for hp v
  proof -
    from that(3-5) have "hp_acceptable ext v" by (simp add: numbers)
    from accept [OF that(1,2) this] that(3) show ?thesis by (auto simp: py_int_number)
  qed
  have ints: "out ''horse_power'' = Some (PInt n)"
    if "payload = PDict hp" "dict_get hp ''value'' PNone = PInt n" "20 \<le> n" "n \<le> 150" for hp n
    using number [OF that(1), of "PInt n"] that(2-4) by (simp add: trunc_of_int)
  have wide: "out ''horse_power'' = Some (PInt (trunc (num_of v))) \<and>
      150 \<le> trunc (num_of v) \<and> trunc (num_of v) \<le> 200"
    if "payload = PDict hp" "v = dict_get hp ''value'' PNone" "is_number v"
      "150 \<le> num_of v" "num_of v \<le> 200" for hp v
    using number [OF that(1,2,3)] that(4,5) trunc_band [OF that(4,5)] by simp
  have text_path: "out ''horse_power'' = Some (fvalue r) \<and>
      out ''horse_power_confidence'' = Some (PFloat (confidence r))"
    if "vlm_horse_power vlm = PNone" "extract_horse_power ext t vlm = Inr r"
      "payload = result_dict ext r" for t vlm r
  proof -
    let ?hp = "[(''value'', fvalue r), (''confidence'', PFloat (confidence r)),
                (''explanation'', PStr (render ext (explanation r)))]"
    from that(3) have p: "payload = PDict ?hp" by (simp add: result_dict_def)
    have look: "fvalue r = dict_get ?hp ''value'' PNone"
      "dict_get ?hp ''confidence'' PNone = PFloat (confidence r)"
      "dict_get ?hp ''confidence'' (PFloat 0) = PFloat (confidence r)"
      by (simp_all add: dict_get_def)
    from that(1,2) have "hp_loop ext t hp_patterns = Inr r"
      by (simp add: extract_horse_power_def)
    from hp_loop_value [OF this] show ?thesis
    proof
      assume none: "fvalue r = PNone \<and> confidence r = 0"
      then have "\<not> hp_acceptable ext (fvalue r)" by (simp add: hp_acceptable_def)
      from reject [OF p look(1) this] none look show ?thesis by simp
    next
      assume "\<exists>n. fvalue r = PInt n \<and> 20 \<le> n \<and> n \<le> 150"
      then obtain n where n: "fvalue r = PInt n" "20 \<le> n" "n \<le> 150" by blast
      from number [OF p look(1)] n look show ?thesis by (simp add: trunc_of_int)
    qed
  qed
  have vlm_path: "fvalue r = PInt (trunc (num_of (vlm_horse_power vlm))) \<and>
      out ''horse_power'' = Some (fvalue r)"
    if "is_number (vlm_horse_power vlm)" "150 \<le> num_of (vlm_horse_power vlm)"
      "num_of (vlm_horse_power vlm) \<le> 200" "extract_horse_power ext t vlm = Inr r"
      "payload = result_dict ext r" for t vlm r
  proof -
    let ?hp = "[(''value'', fvalue r), (''confidence'', PFloat (confidence r)),
                (''explanation'', PStr (render ext (explanation r)))]"
    from that(5) have p: "payload = PDict ?hp" by (simp add: result_dict_def)
    have look: "fvalue r = dict_get ?hp ''value'' PNone" by (simp add: dict_get_def)
    from that(1) have "vlm_horse_power vlm \<noteq> PNone" by auto
    with that(1,4) have r: "fvalue r = PInt (trunc (num_of (vlm_horse_power vlm)))"
      by (auto simp: extract_horse_power_def py_int_number Let_def)
    from trunc_band [OF that(2,3)] number [OF p look] r show ?thesis
      by (simp add: trunc_of_int)
  qed
  have o1: "\<forall>v. is_number v \<longrightarrow> (hp_acceptable ext v \<longleftrightarrow> 15 \<le> num_of v \<and> num_of v \<le> 200)"
    using numbers by blast
  have o2: "\<forall>hp v. payload = PDict hp \<and> v = dict_get hp ''value'' PNone \<and> hp_acceptable ext v \<longrightarrow>
      (\<exists>n. py_int ext v = Inr n \<and> out ''horse_power'' = Some (PInt n)) \<and>
      out ''horse_power_confidence'' = Some (dict_get hp ''confidence'' PNone) \<and>
      out ''horse_power_explanation'' = Some (dict_get hp ''explanation'' PNone)"
    using accept by blast
  have o3: "\<forall>hp v. payload = PDict hp \<and> v = dict_get hp ''value'' PNone \<and> \<not> hp_acceptable ext v \<longrightarrow>
      out ''horse_power'' = Some PNone \<and>
      out ''horse_power_confidence'' = Some (dict_get hp ''confidence'' (PFloat 0)) \<and>
      out ''horse_power_explanation'' =
        Some (dict_get hp ''explanation'' (PStr ''Invalid range or not found''))"
    using reject by blast
  have o4: "(\<forall>hp. payload \<noteq> PDict hp) \<and> hp_acceptable ext payload \<longrightarrow>
      (\<exists>n. py_int ext payload = Inr n \<and> out ''horse_power'' = Some (PInt n)) \<and>
      out ''horse_power_confidence'' = Some (PFloat (7 / 10))"
    using bare_accept by blast
  have o5: "(\<forall>hp. payload \<noteq> PDict hp) \<and> \<not> hp_acceptable ext payload \<longrightarrow>
      out ''horse_power'' = Some PNone \<and>
      out ''horse_power_confidence'' = Some (PFloat 0)"
    using bare_reject by blast
  have o6: "\<forall>hp n. payload = PDict hp \<and> dict_get hp ''value'' PNone = PInt n \<and>
      20 \<le> n \<and> n \<le> 150 \<longrightarrow> out ''horse_power'' = Some (PInt n)"
    using ints by blast
  have o7: "\<forall>hp v. payload = PDict hp \<and> v = dict_get hp ''value'' PNone \<and> is_number v \<and>
      150 \<le> num_of v \<and> num_of v \<le> 200 \<longrightarrow>
      out ''horse_power'' = Some (PInt (trunc (num_of v))) \<and>
      150 \<le> trunc (num_of v) \<and> trunc (num_of v) \<le> 200"
    using wide by blast
  have o8: "\<forall>t vlm r. vlm_horse_power vlm = PNone \<and> extract_horse_power ext t vlm = Inr r \<and>
      payload = result_dict ext r \<longrightarrow>
        out ''horse_power'' = Some (fvalue r) \<and>
        out ''horse_power_confidence'' = Some (PFloat (confidence r))"
    using text_path by blast
  have o9: "\<forall>t vlm r. is_number (vlm_horse_power vlm) \<and> 150 \<le> num_of (vlm_horse_power vlm) \<and>
      num_of (vlm_horse_power vlm) \<le> 200 \<and> extract_horse_power ext t vlm = Inr r \<and>
      payload = result_dict ext r \<longrightarrow>
        fvalue r = PInt (trunc (num_of (vlm_horse_power vlm))) \<and>
        out ''horse_power'' = Some (fvalue r)"
    using vlm_path by blast
  show ?thesis
    unfolding Let_def payload_def [symmetric]
    by (intro conjI) (fact o1, fact o2, fact o3, fact o4, fact o5, fact o6, fact o7, fact o8,
      fact o9)
qed

text \<open>Three records through the validator: 45 read from the transcript, 175.5 and 250 from
  the secondary source (the extractor makes them 175 and 250). The first two are stored,
  the third is refused and keeps its confidence 0.9. A bare 45 is stored with confidence
  0.7.\<close>

lemma hp_quotation:
  "extract_horse_power table_ext quotation_text no_vlm =
     Inr \<lparr>fvalue = PInt 45, confidence = 85 / 100, explanation = HP_using_pattern 45 Digits_HP\<rparr>"
  by (simp add: extract_horse_power_def no_vlm_def hp_patterns_def table_ext_def
      ascii_int_def is_digit_def decimal_def)

lemma hp_secondary:
  "extract_horse_power table_ext quotation_text (no_vlm\<lparr>vlm_horse_power := PFloat (351 / 2)\<rparr>) =
     Inr \<lparr>fvalue = PInt 175, confidence = 9 / 10, explanation = HP_from_VLM 175\<rparr>"
  by (simp add: extract_horse_power_def no_vlm_def trunc_def)

lemma hp_record_well_formed:
  "is_number (fvalue r) \<Longrightarrow> well_formed [(''horse_power'', result_dict ext r)]"
  by (simp add: well_formed_def dict_get_def result_dict_def)

lemma bare_hp_returns:
  "validate Validator table_ext [(''horse_power'', PInt 45)] =
     Inr (projr (validate Validator table_ext [(''horse_power'', PInt 45)]))"
  by (rule Inr_projr)
     (simp add: validate_def and_then_def validate_dealer_name_def validate_model_name_def
        validate_horse_power_def validate_asset_cost_def validate_signature_def
        validate_stamp_def detection_payload_def dict_get_def py_ge_def Validator_def
        validate_hp_range_def validate_bbox_def)

theorem validate_horse_power_gate_witness:
  "validated_key ''horse_power''
     (validate Validator table_ext
        [(''horse_power'', result_dict table_ext
           \<lparr>fvalue = PInt 45, confidence = 85 / 100,
            explanation = HP_using_pattern 45 Digits_HP\<rparr>)])
     = Inr (Some (PInt 45)) \<and>
   validated_key ''horse_power''
     (validate Validator table_ext
        [(''horse_power'', result_dict table_ext
           \<lparr>fvalue = PInt 175, confidence = 9 / 10, explanation = HP_from_VLM 175\<rparr>)])
     = Inr (Some (PInt 175)) \<and>
   validated_key ''horse_power''
     (validate Validator table_ext
        [(''horse_power'', result_dict table_ext
           \<lparr>fvalue = PInt 250, confidence = 9 / 10, explanation = HP_from_VLM 250\<rparr>)])
     = Inr (Some PNone) \<and>
   validated_key ''horse_power_confidence''
     (validate Validator table_ext
        [(''horse_power'', result_dict table_ext
           \<lparr>fvalue = PInt 250, confidence = 9 / 10, explanation = HP_from_VLM 250\<rparr>)])
     = Inr (Some (PFloat (9 / 10))) \<and>
   validated_key ''horse_power'' (validate Validator table_ext [(''horse_power'', PInt 45)])
     = Inr (Some (PInt 45)) \<and>
   validated_key ''horse_power_confidence''
     (validate Validator table_ext [(''horse_power'', PInt 45)])
     = Inr (Some (PFloat (7 / 10)))"
proof -
  define r1 where "r1 = \<lparr>fvalue = PInt 45, confidence = 85 / 100,
             explanation = HP_using_pattern 45 Digits_HP\<rparr>"
  define r2 where "r2 = \<lparr>fvalue = PInt 175, confidence = 9 / 10, explanation = HP_from_VLM 175\<rparr>"
  define r3 where "r3 = \<lparr>fvalue = PInt 250, confidence = 9 / 10, explanation = HP_from_VLM 250\<rparr>"
  let ?hp = "\<lambda>r. [(''value'', fvalue r), (''confidence'', PFloat (confidence r)),
                   (''explanation'', PStr (render table_ext (explanation r)))]"
  let ?run = "\<lambda>r. validate Validator table_ext [(''horse_power'', result_dict table_ext r)]"
  let ?bare = "validate Validator table_ext [(''horse_power'', PInt 45)]"
  have n: "is_number (fvalue r1)" "is_number (fvalue r2)" "is_number (fvalue r3)"
    by (simp_all add: r1_def r2_def r3_def)
  have ret: "?run r = Inr (projr (?run r))" if "is_number (fvalue r)" for r
    by (rule validate_returns, rule hp_record_well_formed, rule that)
  have look: "dict_get [(''horse_power'', result_dict table_ext r)] ''horse_power'' (PDict [])
      = result_dict table_ext r" for r
    by (simp add: dict_get_def)
  have dict: "result_dict table_ext r = PDict (?hp r)" for r
    by (simp add: result_dict_def)
  have val: "fvalue r = dict_get (?hp r) ''value'' PNone"
    and conf: "dict_get (?hp r) ''confidence'' (PFloat 0) = PFloat (confidence r)" for r
    by (simp_all add: dict_get_def)
  note gate = validate_horse_power_gate [OF ret, unfolded Let_def look]
  have none: "vlm_horse_power no_vlm = PNone" by (simp add: no_vlm_def)
  note text_path = gate [OF n(1), THEN conjunct2, THEN conjunct2, THEN conjunct2,
      THEN conjunct2, THEN conjunct2, THEN conjunct2, THEN conjunct2, THEN conjunct1,
      rule_format, of no_vlm quotation_text r1]
  have a: "projr (?run r1) ''horse_power'' = Some (PInt 45)"
    using text_path none hp_quotation by (simp add: r1_def)
  note vlm_path = gate [OF n(2), THEN conjunct2, THEN conjunct2, THEN conjunct2,
      THEN conjunct2, THEN conjunct2, THEN conjunct2, THEN conjunct2, THEN conjunct2,
      rule_format, of "no_vlm\<lparr>vlm_horse_power := PFloat (351 / 2)\<rparr>" quotation_text r2]
  have b: "projr (?run r2) ''horse_power'' = Some (PInt 175)"
    using vlm_path hp_secondary by (simp add: r2_def)
  have "\<not> hp_acceptable table_ext (fvalue r3)"
    using gate [OF n(3), THEN conjunct1, rule_format, of "fvalue r3"] by (simp add: r3_def)
  with gate [OF n(3), THEN conjunct2, THEN conjunct2, THEN conjunct1, rule_format,
      of "?hp r3" "fvalue r3"] dict [of r3] val [of r3] conf [of r3]
  have c: "projr (?run r3) ''horse_power'' = Some PNone \<and>
           projr (?run r3) ''horse_power_confidence'' = Some (PFloat (9 / 10))"
    by (simp add: r3_def)
  note bare = validate_horse_power_gate [OF bare_hp_returns, unfolded Let_def]
  have p: "dict_get [(''horse_power'', PInt 45)] ''horse_power'' (PDict []) = PInt 45"
    by (simp add: dict_get_def)
  have ok: "hp_acceptable table_ext (PInt 45)"
    using bare [THEN conjunct1, rule_format, of "PInt 45"] by simp
  from bare [THEN conjunct2, THEN conjunct2, THEN conjunct2, THEN conjunct1] ok
  have d: "projr ?bare ''horse_power'' = Some (PInt 45) \<and>
           projr ?bare ''horse_power_confidence'' = Some (PFloat (7 / 10))"
    by (auto simp: p)
  have k: "validated_key k (?run r) = Inr (projr (?run r) k)" if "is_number (fvalue r)" for r k
    using ret [OF that] by (rule validated_key_Inr)
  have kb: "validated_key k ?bare = Inr (projr ?bare k)" for k
    using bare_hp_returns by (rule validated_key_Inr)
  from a b c d show ?thesis
    unfolding r1_def [symmetric] r2_def [symmetric] r3_def [symmetric]
    by (simp only: k [OF n(1)] k [OF n(2)] k [OF n(3)] kb)
qed

section \<open>Field results: what a rejection carries\<close>

text \<open>The model loop gives None exactly when no candidate qualifies.\<close>

lemma model_loop_none:
  assumes "\<forall>c \<in> set cands. \<not> model_acceptable ext master c"
  shows "model_loop ext master cands =
           \<lparr>fvalue = PNone, confidence = 0, explanation = No_model_match\<rparr>"
  using model_loop_skip_all [OF assms, of "[]"] by simp

lemma model_loop_some:
  assumes "\<exists>c \<in> set cands. model_acceptable ext master c"
  shows "fvalue (model_loop ext master cands) \<noteq> PNone \<and>
         0 < confidence (model_loop ext master cands)"
proof -
  from assms obtain pre c post where split: "cands = pre @ c # post"
    and acc: "model_acceptable ext master c"
    and pre: "\<forall>p \<in> set pre. \<not> model_acceptable ext master p"
    using split_list_first_prop [of cands "model_acceptable ext master"] by blast
  have eq: "model_loop ext master cands = model_loop ext master (c # post)"
    unfolding split using pre by (rule model_loop_skip_all)
  from acc have ne: "c \<noteq> []" by (simp add: model_acceptable_def)
  show ?thesis
  proof (cases "c \<in> set master")
    case True
    from model_loop_exact [OF ne True, of ext post] show ?thesis unfolding eq by simp
  next
    case False
    with acc have "\<exists>m \<in> set master. 95 \<le> fuzz_ratio ext c m"
      by (simp add: model_acceptable_def)
    from model_loop_fuzzy [OF ne False this, of post]
    obtain m where "95 \<le> fuzz_ratio ext c m"
      "model_loop ext master (c # post) =
         \<lparr>fvalue = PStr m, confidence = fuzz_ratio ext c m / 100,
          explanation = Matched c m (fuzz_ratio ext c m)\<rparr>"
      by blast
    then show ?thesis unfolding eq by simp
  qed
qed

text \<open>The horse power loop, when it returns, gives None exactly when no pattern has a
  first match in the band.\<close>

lemma hp_loop_none_iff:
  "hp_loop ext t ps = Inr r \<Longrightarrow>
   (fvalue r = PNone \<longleftrightarrow>
      (\<forall>p \<in> set ps. \<forall>n. first_match ext t p = Some n \<longrightarrow> \<not> in_hp_band n))"
proof (induction ps)
  case Nil
  then show ?case by auto
next
  case (Cons p ps)
  show ?case
  proof (cases "findall_hp ext p t")
    case Nil
    then have "first_match ext t p = None" by (simp add: first_match_def)
    moreover from Nil Cons.prems have "hp_loop ext t ps = Inr r" by simp
    ultimately show ?thesis using Cons.IH by simp
  next
    case (Cons m ms)
    show ?thesis
    proof (cases "int_of_str ext m")
      case None
      with Cons Cons.prems show ?thesis by simp
    next
      case (Some n)
      then have fm: "first_match ext t p = Some n" using Cons by (simp add: first_match_def)
      show ?thesis
      proof (cases "in_hp_band n")
        case True
        with Cons Some Cons.prems have "fvalue r = PInt n"
          by (auto simp: in_hp_band_def)
        with fm True show ?thesis by auto
      next
        case False
        with Cons Some Cons.prems have "hp_loop ext t ps = Inr r"
          by (auto simp: in_hp_band_def)
        with Cons.IH fm False show ?thesis by simp
      qed
    qed
  qed
qed

lemma extract_horse_power_vlm_value:
  "vlm_horse_power vlm \<noteq> PNone \<Longrightarrow> extract_horse_power ext t vlm = Inr r \<Longrightarrow>
   fvalue r \<noteq> PNone \<and> confidence r = 9 / 10"
  by (auto simp: extract_horse_power_def Let_def split: sum.splits)

lemma extract_asset_cost_vlm_value:
  "vlm_asset_cost vlm \<noteq> PNone \<Longrightarrow> extract_asset_cost ext t vlm = Inr r \<Longrightarrow>
   fvalue r \<noteq> PNone \<and> confidence r = 9 / 10"
  by (auto simp: extract_asset_cost_def Let_def split: sum.splits)

lemma hp_loop_none_result:
  "hp_loop ext t ps = Inr r \<Longrightarrow> fvalue r = PNone \<Longrightarrow>
   r = \<lparr>fvalue = PNone, confidence = 0, explanation = No_HP_found\<rparr>"
proof (induction ps)
  case Nil
  then show ?case by auto
next
  case (Cons p ps)
  then show ?case
    by (auto split: list.splits option.splits if_splits)
qed

text \<open>
  C9, amended. Every field result of the reconciler has value None exactly when the field
  was rejected, and a rejected field has confidence 0: the best score seen is not carried in
  the confidence. For the dealer name, rejection is a best similarity below 90, and the best
  score is kept in the explanation. For the model name, rejection is that no candidate
  qualifies. For the horse power and the asset cost, when the extractor returns, rejection
  is that the secondary source gave nothing and no pattern has a first match in 20 to 150,
  respectively no match has a cleaned value in 300000 to 1500000.
\<close>

theorem rejected_fields_have_no_value_and_no_confidence:
  "(let candidates = name_candidates (vlm_dealer_name vlm) (dealer_candidates ext ocr_text);
        best = best_similarity ext (dealer_master fe) candidates;
        result = extract_dealer_name fe ext ocr_text vlm
    in (fvalue result = PNone \<longleftrightarrow> best < 90) \<and>
       (best < 90 \<longrightarrow> confidence result = 0 \<and> explanation result = No_dealer_match best)) \<and>
   (let candidates = name_candidates (vlm_model_name vlm) (model_candidates ext ocr_text);
        result = extract_model_name fe ext ocr_text vlm
    in (fvalue result = PNone \<longleftrightarrow>
          (\<forall>c \<in> set candidates. \<not> model_acceptable ext (asset_master fe) c)) \<and>
       (fvalue result = PNone \<longrightarrow>
          confidence result = 0 \<and> explanation result = No_model_match)) \<and>
   (\<forall>r. extract_horse_power ext ocr_text vlm = Inr r \<longrightarrow>
      (fvalue r = PNone \<longleftrightarrow>
         vlm_horse_power vlm = PNone \<and>
         (\<forall>p \<in> set hp_patterns. \<forall>n. first_match ext ocr_text p = Some n \<longrightarrow> \<not> in_hp_band n)) \<and>
      (fvalue r = PNone \<longrightarrow> confidence r = 0 \<and> explanation r = No_HP_found)) \<and>
   (\<forall>r. extract_asset_cost ext ocr_text vlm = Inr r \<longrightarrow>
      (fvalue r = PNone \<longleftrightarrow>
         vlm_asset_cost vlm = PNone \<and> plausible_costs ext ocr_text = {}) \<and>
      (fvalue r = PNone \<longrightarrow> confidence r = 0 \<and> explanation r = No_valid_cost))"
proof -
  let ?dc = "name_candidates (vlm_dealer_name vlm) (dealer_candidates ext ocr_text)"
  let ?best = "best_similarity ext (dealer_master fe) ?dc"
  let ?d = "extract_dealer_name fe ext ocr_text vlm"
  have d_rej: "?best < 90 \<Longrightarrow> fvalue ?d = PNone \<and> confidence ?d = 0 \<and>
      explanation ?d = No_dealer_match ?best"
    using extract_dealer_name_reject [of ext fe vlm ocr_text] by simp
  have d_acc: "\<not> ?best < 90 \<Longrightarrow> fvalue ?d \<noteq> PNone"
  proof -
    assume "\<not> ?best < 90"
    then have "90 \<le> ?best" by simp
    from extract_dealer_name_accept [OF this] show ?thesis by auto
  qed
  have dealer: "(fvalue ?d = PNone \<longleftrightarrow> ?best < 90) \<and>
      (?best < 90 \<longrightarrow> confidence ?d = 0 \<and> explanation ?d = No_dealer_match ?best)"
    using d_rej d_acc by blast
  let ?mc = "name_candidates (vlm_model_name vlm) (model_candidates ext ocr_text)"
  let ?m = "extract_model_name fe ext ocr_text vlm"
  have m_rej: "\<forall>c \<in> set ?mc. \<not> model_acceptable ext (asset_master fe) c \<Longrightarrow>
      fvalue ?m = PNone \<and> confidence ?m = 0 \<and> explanation ?m = No_model_match"
    by (simp add: extract_model_name_def model_loop_none)
  have m_acc: "\<not> (\<forall>c \<in> set ?mc. \<not> model_acceptable ext (asset_master fe) c) \<Longrightarrow>
      fvalue ?m \<noteq> PNone"
    using model_loop_some [of ?mc ext "asset_master fe"]
    by (simp add: extract_model_name_def)
  have model: "(fvalue ?m = PNone \<longleftrightarrow>
        (\<forall>c \<in> set ?mc. \<not> model_acceptable ext (asset_master fe) c)) \<and>
      (fvalue ?m = PNone \<longrightarrow> confidence ?m = 0 \<and> explanation ?m = No_model_match)"
    using m_rej m_acc by blast
  have hp: "(fvalue r = PNone \<longleftrightarrow>
        vlm_horse_power vlm = PNone \<and>
        (\<forall>p \<in> set hp_patterns. \<forall>n. first_match ext ocr_text p = Some n \<longrightarrow> \<not> in_hp_band n)) \<and>
      (fvalue r = PNone \<longrightarrow> confidence r = 0 \<and> explanation r = No_HP_found)"
    if ret: "extract_horse_power ext ocr_text vlm = Inr r" for r
  proof (cases "vlm_horse_power vlm = PNone")
    case True
    with ret have loop: "hp_loop ext ocr_text hp_patterns = Inr r"
      by (simp add: extract_horse_power_def)
    from hp_loop_none_iff [OF loop] hp_loop_none_result [OF loop] True
    show ?thesis by auto
  next
    case False
    from extract_horse_power_vlm_value [OF False ret] False show ?thesis by simp
  qed
  have cost: "(fvalue r = PNone \<longleftrightarrow>
        vlm_asset_cost vlm = PNone \<and> plausible_costs ext ocr_text = {}) \<and>
      (fvalue r = PNone \<longrightarrow> confidence r = 0 \<and> explanation r = No_valid_cost)"
    if ret: "extract_asset_cost ext ocr_text vlm = Inr r" for r
  proof (cases "vlm_asset_cost vlm = PNone")
    case True
    show ?thesis
    proof (cases "plausible_costs ext ocr_text = {}")
      case empty: True
      from extract_asset_cost_none [OF True empty] ret True empty show ?thesis by simp
    next
      case False
      from extract_asset_cost_max [OF True False] ret False show ?thesis by auto
    qed
  next
    case False
    from extract_asset_cost_vlm_value [OF False ret] False show ?thesis by simp
  qed
  have o3: "\<forall>r. extract_horse_power ext ocr_text vlm = Inr r \<longrightarrow>
      (fvalue r = PNone \<longleftrightarrow>
         vlm_horse_power vlm = PNone \<and>
         (\<forall>p \<in> set hp_patterns. \<forall>n. first_match ext ocr_text p = Some n \<longrightarrow> \<not> in_hp_band n)) \<and>
      (fvalue r = PNone \<longrightarrow> confidence r = 0 \<and> explanation r = No_HP_found)"
    using hp by blast
  have o4: "\<forall>r. extract_asset_cost ext ocr_text vlm = Inr r \<longrightarrow>
      (fvalue r = PNone \<longleftrightarrow>
         vlm_asset_cost vlm = PNone \<and> plausible_costs ext ocr_text = {}) \<and>
      (fvalue r = PNone \<longrightarrow> confidence r = 0 \<and> explanation r = No_valid_cost)"
    using cost by blast
  show ?thesis
    unfolding Let_def
    by (intro conjI) (fact dealer [THEN conjunct1], fact dealer [THEN conjunct2],
      fact model [THEN conjunct1], fact model [THEN conjunct2], fact o3, fact o4)
qed

text \<open>With the master lists of \<open>short_extractor\<close>, the quotation has a dealer candidate of
  best similarity 500/7 and no model candidate: both names are rejected with confidence 0,
  while its horse power 45 is accepted. The model line has no power figure and no amount:
  both numeric fields are rejected with confidence 0.\<close>

lemma quotation_no_model_candidates:
  "name_candidates (vlm_model_name no_vlm) (model_candidates table_ext quotation_text) = []"
  by (simp add: name_candidates_def no_vlm_def table_ext_def table_model_candidates_def
      quotation_text_def model_text_def)

lemma model_text_no_matches:
  "\<forall>p \<in> set hp_patterns. \<forall>n. first_match table_ext model_text p = Some n \<longrightarrow> \<not> in_hp_band n"
  "plausible_costs table_ext model_text = {}"
  by (simp_all add: hp_patterns_def first_match_def table_ext_def model_text_def
      quotation_text_def two_powers_text_def two_amounts_text_def plausible_costs_def
      cost_patterns_def)

lemma model_text_returns:
  "extract_horse_power table_ext model_text no_vlm =
     Inr (projr (extract_horse_power table_ext model_text no_vlm))"
  "extract_asset_cost table_ext model_text no_vlm =
     Inr (projr (extract_asset_cost table_ext model_text no_vlm))"
  by (rule Inr_projr,
      simp add: extract_horse_power_def extract_asset_cost_def no_vlm_def hp_patterns_def
        cost_patterns_def table_ext_def model_text_def quotation_text_def two_powers_text_def
        two_amounts_text_def)+

theorem rejected_fields_have_no_value_and_no_confidence_witness:
  "best_similarity table_ext (dealer_master short_extractor)
     (name_candidates (vlm_dealer_name no_vlm) (dealer_candidates table_ext quotation_text)) < 90 \<and>
   extract_dealer_name short_extractor table_ext quotation_text no_vlm =
     \<lparr>fvalue = PNone, confidence = 0, explanation = No_dealer_match (500 / 7)\<rparr> \<and>
   extract_model_name short_extractor table_ext quotation_text no_vlm =
     \<lparr>fvalue = PNone, confidence = 0, explanation = No_model_match\<rparr> \<and>
   map_sum id fvalue (extract_horse_power table_ext quotation_text no_vlm) \<noteq> Inr PNone \<and>
   extract_horse_power table_ext model_text no_vlm =
     Inr \<lparr>fvalue = PNone, confidence = 0, explanation = No_HP_found\<rparr> \<and>
   extract_asset_cost table_ext model_text no_vlm =
     Inr \<lparr>fvalue = PNone, confidence = 0, explanation = No_valid_cost\<rparr>"
proof -
  note quotation = rejected_fields_have_no_value_and_no_confidence
    [of no_vlm table_ext quotation_text short_extractor, unfolded Let_def]
  note model_line = rejected_fields_have_no_value_and_no_confidence
    [of no_vlm table_ext model_text short_extractor, unfolded Let_def]
  have none: "vlm_horse_power no_vlm = PNone" "vlm_asset_cost no_vlm = PNone"
    by (simp_all add: no_vlm_def)
  have lt: "best_similarity table_ext (dealer_master short_extractor)
     (name_candidates (vlm_dealer_name no_vlm) (dealer_candidates table_ext quotation_text)) < 90"
    by (simp add: short_best)
  from quotation [THEN conjunct1] lt
  have "fvalue (extract_dealer_name short_extractor table_ext quotation_text no_vlm) = PNone"
    and "confidence (extract_dealer_name short_extractor table_ext quotation_text no_vlm) = 0"
    and "explanation (extract_dealer_name short_extractor table_ext quotation_text no_vlm)
         = No_dealer_match (500 / 7)"
    unfolding short_best by simp_all
  then have dealer: "extract_dealer_name short_extractor table_ext quotation_text no_vlm =
     \<lparr>fvalue = PNone, confidence = 0, explanation = No_dealer_match (500 / 7)\<rparr>"
    by (cases "extract_dealer_name short_extractor table_ext quotation_text no_vlm") simp
  from quotation [THEN conjunct2, THEN conjunct1]
  have "fvalue (extract_model_name short_extractor table_ext quotation_text no_vlm) = PNone"
    and "confidence (extract_model_name short_extractor table_ext quotation_text no_vlm) = 0"
    and "explanation (extract_model_name short_extractor table_ext quotation_text no_vlm)
         = No_model_match"
    unfolding quotation_no_model_candidates by simp_all
  then have model: "extract_model_name short_extractor table_ext quotation_text no_vlm =
     \<lparr>fvalue = PNone, confidence = 0, explanation = No_model_match\<rparr>"
    by (cases "extract_model_name short_extractor table_ext quotation_text no_vlm") simp
  have "first_match table_ext quotation_text Digits_HP = Some 45" "in_hp_band 45"
    by (simp_all add: first_match_def table_ext_def ascii_int_def is_digit_def decimal_def
        in_hp_band_def)
  then have "\<not> (\<forall>p \<in> set hp_patterns. \<forall>n. first_match table_ext quotation_text p = Some n \<longrightarrow>
      \<not> in_hp_band n)"
    by (auto simp: hp_patterns_def)
  with quotation [THEN conjunct2, THEN conjunct2, THEN conjunct1, rule_format, THEN conjunct1]
  have accepted: "map_sum id fvalue (extract_horse_power table_ext quotation_text no_vlm)
      \<noteq> Inr PNone"
    by (cases "extract_horse_power table_ext quotation_text no_vlm") auto
  from model_line [THEN conjunct2, THEN conjunct2, THEN conjunct1, rule_format,
      OF model_text_returns(1)] none(1) model_text_no_matches(1)
  have "fvalue (projr (extract_horse_power table_ext model_text no_vlm)) = PNone"
    and "confidence (projr (extract_horse_power table_ext model_text no_vlm)) = 0"
    and "explanation (projr (extract_horse_power table_ext model_text no_vlm)) = No_HP_found"
    by simp_all
  then have "projr (extract_horse_power table_ext model_text no_vlm) =
      \<lparr>fvalue = PNone, confidence = 0, explanation = No_HP_found\<rparr>"
    by (cases "projr (extract_horse_power table_ext model_text no_vlm)") simp
  with model_text_returns(1) have hp: "extract_horse_power table_ext model_text no_vlm =
      Inr \<lparr>fvalue = PNone, confidence = 0, explanation = No_HP_found\<rparr>"
    by simp
  from model_line [THEN conjunct2, THEN conjunct2, THEN conjunct2, rule_format,
      OF model_text_returns(2)] none(2) model_text_no_matches(2)
  have "fvalue (projr (extract_asset_cost table_ext model_text no_vlm)) = PNone"
    and "confidence (projr (extract_asset_cost table_ext model_text no_vlm)) = 0"
    and "explanation (projr (extract_asset_cost table_ext model_text no_vlm)) = No_valid_cost"
    by simp_all
  then have "projr (extract_asset_cost table_ext model_text no_vlm) =
      \<lparr>fvalue = PNone, confidence = 0, explanation = No_valid_cost\<rparr>"
    by (cases "projr (extract_asset_cost table_ext model_text no_vlm)") simp
  with model_text_returns(2) have cost: "extract_asset_cost table_ext model_text no_vlm =
      Inr \<lparr>fvalue = PNone, confidence = 0, explanation = No_valid_cost\<rparr>"
    by simp
  from lt dealer model accepted hp cost show ?thesis by blast
qed

end
